theory Spec2Isabelle
  imports Complex_Main "HOL-Library.Multiset"
begin

section \<open>Hyperliquid signal system: a shallow embedding\<close>

text \<open>
  The development follows the TypeScript sources of the signal lifecycle engine:
  \<^item> \<^verbatim>\<open>backend/shared/performance.ts\<close> (class PerformanceCalculator),
  \<^item> \<^verbatim>\<open>backend/shared/utils.ts\<close> (withRetry, generateEventId),
  \<^item> \<^verbatim>\<open>backend/workers/ingestion/src/index.ts\<close> (processPosition, findRelevantFill),
  \<^item> the price-monitor worker stored behind \<^verbatim>\<open>backend/shared/database.ts\<close>
    (monitorActivePrices, processSignalPriceCheck and their helpers) and the
    DatabaseManager methods they call.

  Numbers. A JavaScript \<^verbatim>\<open>number\<close> that carries a price, a size, a percentage or a
  rate is modelled as a \<^typ>\<open>real\<close>: the arithmetic is exact, IEEE-754 rounding, NaN and
  the infinities are not modelled. Millisecond timestamps and counters are \<^typ>\<open>int\<close>
  or \<^typ>\<open>nat\<close>. Strings are \<^typ>\<open>string\<close>; the direction and the status of a signal
  stay strings, as in the source, which compares them with \<^verbatim>\<open>===\<close>.
\<close>

subsection \<open>Errors\<close>

text \<open>
  What the sources throw: \<^verbatim>\<open>ApiError\<close> (with its optional HTTP status),
  \<^verbatim>\<open>RetryableError\<close> (a request timeout), any other \<^verbatim>\<open>Error\<close>, the value
  \<^verbatim>\<open>undefined\<close> (thrown by \<^verbatim>\<open>throw lastError!\<close> when nothing was caught), a failed
  D1 statement and a failed queue send.
\<close>

datatype js_error =
    ApiError "nat option"
  | RetryableError
  | GenericError
  | ThrownUndefined
  | D1Error
  | QueueError

subsection \<open>Performance calculator (performance.ts)\<close>

text \<open>
  \<^verbatim>\<open>PerformanceCalculator.calculatePnL\<close>, lines 24-40. The direction multiplier is
  \<open>1\<close> for the string \<^verbatim>\<open>'LONG'\<close> and \<open>-1\<close> for anything else; the funding term is
  \<^verbatim>\<open>fundingRate * positionSize * entryPrice * (durationHours / 8)\<close> and is subtracted
  with its sign.
\<close>

definition calculatePnL :: "real \<Rightarrow> real \<Rightarrow> real \<Rightarrow> string \<Rightarrow> real \<Rightarrow> real \<Rightarrow> real" where
  "calculatePnL entryPrice exitPrice positionSize signalType fundingRate durationHours =
     (let directionMultiplier = (if signalType = ''LONG'' then 1 else - 1);
          priceDiff = exitPrice - entryPrice;
          tradePnL = directionMultiplier * priceDiff * positionSize;
          fundingCost = fundingRate * positionSize * entryPrice * (durationHours / 8)
      in tradePnL - fundingCost)"

text \<open>
  The formula as the specification words it (section 4.4), kept apart from the source's:
  the funding cost uses \<open>\<lceil>durationHours / 8\<rceil>\<close> funding periods and its absolute value is
  subtracted. It is only compared with \<^const>\<open>calculatePnL\<close>.
\<close>

definition spec_calculatePnL :: "real \<Rightarrow> real \<Rightarrow> real \<Rightarrow> string \<Rightarrow> real \<Rightarrow> real \<Rightarrow> real" where
  "spec_calculatePnL entryPrice exitPrice positionSize signalType fundingRate durationHours =
     (let directionMultiplier = (if signalType = ''LONG'' then 1 else - 1);
          tradePnL = directionMultiplier * (exitPrice - entryPrice) * positionSize;
          fundingPeriods = real_of_int \<lceil>durationHours / 8\<rceil>;
          fundingCost = fundingRate * positionSize * entryPrice * fundingPeriods
      in tradePnL - \<bar>fundingCost\<bar>)"

datatype outcome = WIN | LOSS | PARTIAL

text \<open>\<^verbatim>\<open>PerformanceCalculator.determineOutcome\<close>, lines 62-72.\<close>

definition determineOutcome :: "string \<Rightarrow> real \<Rightarrow> outcome" where
  "determineOutcome status pnl =
     (if status = ''TP_HIT'' then WIN
      else if status = ''SL_HIT'' then LOSS
      else if status = ''PARTIAL_TP'' then PARTIAL
      else if pnl > 0 then WIN else LOSS)"

subsection \<open>Retrying external calls (utils.ts)\<close>

record retry_options =
  maxRetries :: int
  baseDelay :: real
  maxDelay :: real
  backoffMultiplier :: real

text \<open>The default value of the \<^verbatim>\<open>options\<close> parameter of \<^verbatim>\<open>withRetry\<close>.\<close>

definition default_retry_options :: retry_options where
  "default_retry_options =
     \<lparr>maxRetries = 3, baseDelay = 1000, maxDelay = 10000, backoffMultiplier = 2\<rparr>"

text \<open>
  The test \<^verbatim>\<open>error instanceof ApiError && error.status && error.status < 500\<close> of
  \<^verbatim>\<open>withRetry\<close>: an ApiError whose status is present, not zero and below 500.
\<close>

definition nonRetryable :: "js_error \<Rightarrow> bool" where
  "nonRetryable error =
     (case error of ApiError (Some status) \<Rightarrow> status \<noteq> 0 \<and> status < 500 | _ \<Rightarrow> False)"

text \<open>
  What a run of \<^verbatim>\<open>withRetry\<close> leaves behind: the value returned or the error thrown,
  the number of times the operation was invoked, and the delays slept, in order.
\<close>

record 'a retry_run =
  returned :: "js_error + 'a"
  calls :: nat
  slept :: "real list"

text \<open>
  \<^verbatim>\<open>withRetry\<close>, lines 26-66. \<open>operation k\<close> is the outcome of the invocation made at
  attempt \<open>k\<close> (\<open>Inl\<close> when it throws) and \<open>random k\<close> the value \<^verbatim>\<open>Math.random()\<close> returns at
  that attempt. The loop variable \<^verbatim>\<open>attempt\<close> runs from 0 while
  \<^verbatim>\<open>attempt <= options.maxRetries\<close>; \<^verbatim>\<open>lastError\<close> is undefined until something is
  caught.
\<close>

function withRetry_loop ::
  "(nat \<Rightarrow> js_error + 'a) \<Rightarrow> retry_options \<Rightarrow> (nat \<Rightarrow> real) \<Rightarrow> nat \<Rightarrow> js_error option
     \<Rightarrow> nat \<Rightarrow> real list \<Rightarrow> 'a retry_run" where
  "withRetry_loop operation options random attempt lastError n delays =
     (if int attempt \<le> maxRetries options then
        (case operation attempt of
           Inr v \<Rightarrow> \<lparr>returned = Inr v, calls = n + 1, slept = delays\<rparr>
         | Inl error \<Rightarrow>
             if nonRetryable error
             then \<lparr>returned = Inl error, calls = n + 1, slept = delays\<rparr>
             else if int attempt = maxRetries options
             then \<lparr>returned = Inl error, calls = n + 1, slept = delays\<rparr>
             else
               (let delay = min (baseDelay options * backoffMultiplier options ^ attempt)
                                (maxDelay options);
                    jitteredDelay = delay + random attempt * 1000
                in withRetry_loop operation options random (attempt + 1) (Some error)
                     (n + 1) (delays @ [jitteredDelay])))
      else \<lparr>returned = Inl (case lastError of None \<Rightarrow> ThrownUndefined | Some e \<Rightarrow> e),
             calls = n, slept = delays\<rparr>)"
  by pat_completeness auto
termination
  by (relation "measure (\<lambda>(operation, options, random, attempt, lastError, n, delays).
        nat (maxRetries options + 1 - int attempt))") auto

declare withRetry_loop.simps [simp del]

definition withRetry ::
  "(nat \<Rightarrow> js_error + 'a) \<Rightarrow> retry_options \<Rightarrow> (nat \<Rightarrow> real) \<Rightarrow> 'a retry_run" where
  "withRetry operation options random = withRetry_loop operation options random 0 None 0 []"

subsection \<open>The idempotency key (utils.ts)\<close>

text \<open>
  \<^verbatim>\<open>btoa\<close>: standard base64 with padding. A \<^typ>\<open>char\<close> is one byte, so every
  \<^typ>\<open>string\<close> is a Latin-1 string, the inputs on which \<^verbatim>\<open>btoa\<close> does not throw.
\<close>

definition base64_alphabet :: string where
  "base64_alphabet = ''ABCDEFGHIJKLMNOPQRSTUVWXYZabcdefghijklmnopqrstuvwxyz0123456789+/''"

definition base64_digit :: "nat \<Rightarrow> char" where
  "base64_digit n = base64_alphabet ! (n mod 64)"

fun base64_bytes :: "nat list \<Rightarrow> string" where
  "base64_bytes (a # b # c # rest) =
     base64_digit (a div 4) # base64_digit ((a mod 4) * 16 + b div 16)
       # base64_digit ((b mod 16) * 4 + c div 64) # base64_digit (c mod 64)
       # base64_bytes rest"
| "base64_bytes [a, b] =
     [base64_digit (a div 4), base64_digit ((a mod 4) * 16 + b div 16),
      base64_digit ((b mod 16) * 4), CHR ''='']"
| "base64_bytes [a] =
     [base64_digit (a div 4), base64_digit ((a mod 4) * 16), CHR ''='', CHR ''='']"
| "base64_bytes [] = []"

definition btoa :: "string \<Rightarrow> string" where
  "btoa s = base64_bytes (map of_char s)"

text \<open>The characters the regular expression \<^verbatim>\<open>/[^a-zA-Z0-9]/g\<close> keeps.\<close>

definition is_alnum :: "char \<Rightarrow> bool" where
  "is_alnum c =
     (let n = (of_char c :: nat)
      in (48 \<le> n \<and> n \<le> 57) \<or> (65 \<le> n \<and> n \<le> 90) \<or> (97 \<le> n \<and> n \<le> 122))"

text \<open>The decimal text of an integer, as a template literal prints it.\<close>

definition digit_char :: "nat \<Rightarrow> char" where
  "digit_char d = ''0123456789'' ! (d mod 10)"

fun string_of_nat :: "nat \<Rightarrow> string" where
  "string_of_nat n =
     (if n < 10 then [digit_char n]
      else string_of_nat (n div 10) @ [digit_char (n mod 10)])"

declare string_of_nat.simps [simp del]

definition string_of_int :: "int \<Rightarrow> string" where
  "string_of_int i =
     (if i < 0 then CHR ''-'' # string_of_nat (nat (- i)) else string_of_nat (nat i))"

text \<open>
  \<^verbatim>\<open>generateEventId\<close>, lines 141-145. \<^verbatim>\<open>Math.floor(timestamp / 60000)\<close> on an integer
  timestamp is \<open>timestamp div 60000\<close> (\<open>div\<close> on \<^typ>\<open>int\<close> rounds down).
\<close>

definition generateEventId :: "string \<Rightarrow> string \<Rightarrow> int \<Rightarrow> string \<Rightarrow> string" where
  "generateEventId walletAddress pair timestamp direction =
     (let data = walletAddress @ ''-'' @ pair @ ''-'' @ direction @ ''-''
                   @ string_of_int (timestamp div 60000)
      in take 32 (filter is_alnum (btoa data)))"

subsection \<open>Position ingestion (workers/ingestion/src/index.ts)\<close>

text \<open>
  A fill of \<^verbatim>\<open>HyperliquidFill\<close> with the fields the Ingestor reads; \<open>px\<close> is the price
  \<^verbatim>\<open>parseFloat(fill.px)\<close> yields. \<^verbatim>\<open>userFills\<close> may be null, and its \<^verbatim>\<open>fills\<close> may be
  missing.
\<close>

record fill =
  coin :: string
  px :: real
  time :: int
  side :: string

record user_fills =
  fills :: "fill list option"

text \<open>
  \<^verbatim>\<open>findRelevantFill\<close>, lines 234-252. \<^verbatim>\<open>Array.prototype.sort\<close> is a stable sort; with
  the comparator \<^verbatim>\<open>b.time - a.time\<close> it orders by descending time, which is
  \<^const>\<open>sort_key\<close> on the negated time (an insertion sort, stable as well).
\<close>

definition findRelevantFill :: "user_fills option \<Rightarrow> string \<Rightarrow> string \<Rightarrow> fill option" where
  "findRelevantFill userFills pair positionType =
     (case userFills of
        None \<Rightarrow> None
      | Some uf \<Rightarrow>
          (case fills uf of
             None \<Rightarrow> None
           | Some fs \<Rightarrow>
               (let recentFills =
                      sort_key (\<lambda>f. - time f)
                        (filter (\<lambda>f. coin f = pair
                                   \<and> (if side f = ''B'' then ''LONG'' else ''SHORT'') = positionType) fs)
                in case recentFills of [] \<Rightarrow> None | f # _ \<Rightarrow> Some f)))"

text \<open>
  The snapshot of one asset position, after \<^verbatim>\<open>parseFloat\<close> and \<^verbatim>\<open>parseInt\<close>:
  \<open>szi\<close> is the signed size, \<open>entryPx\<close> the average entry price, \<open>leverage_value\<close> the
  leverage. \<^verbatim>\<open>assetPosition.position\<close> may be missing.
\<close>

record position_data =
  szi :: real
  entryPx :: real
  leverage_value :: int

record asset_position =
  asset_coin :: string
  position :: "position_data option"

text \<open>The fields of \<^verbatim>\<open>Config\<close> that \<^verbatim>\<open>processPosition\<close> reads.\<close>

record config =
  ignored_pairs :: "string list"
  monitored_pairs :: "string list"
  min_trade_size :: real
  required_leverage_min :: int

text \<open>\<^verbatim>\<open>WalletPosition\<close> of types.ts, one row of the table wallet_positions.\<close>

record wallet_position =
  wallet_address :: string
  wp_pair :: string
  position_type :: string
  entry_timestamp :: int
  wp_entry_price :: real
  trade_size :: real
  leverage :: int
  funding_rate :: real
  last_updated :: int
  open_event_id :: string

text \<open>
  The state the Ingestor writes: the tables wallet_positions and ingested_events, and the
  messages sent to the signal queue (each a \<^verbatim>\<open>new_position\<close> event carrying the
  position).
\<close>

record ingest_state =
  wallet_positions :: "wallet_position list"
  ingested_events :: "string list"
  signal_queue :: "wallet_position list"

text \<open>
  What the outside world does during one call of \<^verbatim>\<open>processPosition\<close>: the clock
  \<^verbatim>\<open>Date.now()\<close> (the two readings of one call are taken to be equal), the funding
  rate \<^verbatim>\<open>getFundingRate\<close> delivers (\<open>None\<close> when it throws or returns null), and whether
  the key lookup, the position write, the key write and the queue send fail.
\<close>

record ingest_env =
  now :: int
  funding_result :: "real option"
  event_lookup_fails :: bool
  position_write_fails :: bool
  event_write_fails :: bool
  queue_send_fails :: bool

text \<open>\<^verbatim>\<open>calculateNotionalValue\<close>, utils.ts lines 152-154.\<close>

definition calculateNotionalValue :: "real \<Rightarrow> real \<Rightarrow> real \<Rightarrow> real" where
  "calculateNotionalValue price size' contractMultiplier = price * size' * contractMultiplier"

text \<open>
  \<^verbatim>\<open>DatabaseManager.checkEventExists\<close>, database.ts lines 269-280: on a failed query it
  logs and returns false.
\<close>

definition checkEventExists :: "ingest_env \<Rightarrow> string \<Rightarrow> ingest_state \<Rightarrow> bool" where
  "checkEventExists env eventId st =
     (if event_lookup_fails env then False else eventId \<in> set (ingested_events st))"

text \<open>
  \<^verbatim>\<open>DatabaseManager.saveWalletPosition\<close>, lines 80-106: INSERT OR REPLACE under the unique
  index (wallet_address, pair, open_event_id); a failure is rethrown.
\<close>

definition saveWalletPosition ::
  "ingest_env \<Rightarrow> wallet_position \<Rightarrow> ingest_state \<Rightarrow> js_error + ingest_state" where
  "saveWalletPosition env p st =
     (if position_write_fails env then Inl D1Error
      else Inr (st\<lparr>wallet_positions :=
             filter (\<lambda>q. \<not> (wallet_address q = wallet_address p \<and> wp_pair q = wp_pair p
                             \<and> open_event_id q = open_event_id p)) (wallet_positions st)
             @ [p]\<rparr>))"

text \<open>
  \<^verbatim>\<open>DatabaseManager.saveEvent\<close>, lines 282-293: INSERT OR IGNORE; a failure is logged
  and not rethrown.
\<close>

definition saveEvent :: "ingest_env \<Rightarrow> string \<Rightarrow> ingest_state \<Rightarrow> ingest_state" where
  "saveEvent env eventId st =
     (if event_write_fails env \<or> eventId \<in> set (ingested_events st) then st
      else st\<lparr>ingested_events := ingested_events st @ [eventId]\<rparr>)"

text \<open>
  Lines 216-220, \<^verbatim>\<open>Promise.all([db.saveWalletPosition(..), db.saveEvent(..)])\<close>: both
  statements are issued before either result is awaited, so each takes effect or fails on
  its own; the combined promise rejects exactly when the position write does.
\<close>

definition savePositionAndEvent ::
  "ingest_env \<Rightarrow> wallet_position \<Rightarrow> string \<Rightarrow> ingest_state \<Rightarrow> js_error option \<times> ingest_state" where
  "savePositionAndEvent env newPosition eventId st =
     (case saveWalletPosition env newPosition st of
        Inl e \<Rightarrow> (Some e, saveEvent env eventId st)
      | Inr st1 \<Rightarrow> (None, saveEvent env eventId st1))"

text \<open>
  \<^verbatim>\<open>processPosition\<close>, lines 127-232. The result is the error thrown, if any, and the
  state afterwards; every \<^verbatim>\<open>return\<close> before the writes leaves the state as it was.
\<close>

definition processPosition ::
  "string \<Rightarrow> asset_position \<Rightarrow> user_fills option \<Rightarrow> config \<Rightarrow> ingest_env \<Rightarrow> ingest_state
     \<Rightarrow> js_error option \<times> ingest_state" where
  "processPosition walletAddress assetPosition userFills cfg env st =
     (let pair = asset_coin assetPosition in
      case position assetPosition of
        None \<Rightarrow> (None, st)
      | Some pos \<Rightarrow>
          (let currentSize = szi pos; entryPrice = entryPx pos; lev = leverage_value pos in
           if currentSize = 0 then (None, st)
           else if pair \<in> set (ignored_pairs cfg) then (None, st)
           else if monitored_pairs cfg \<noteq> [] \<and> pair \<notin> set (monitored_pairs cfg) then (None, st)
           else
             (let positionType = (if currentSize > 0 then ''LONG'' else ''SHORT'');
                  absSize = \<bar>currentSize\<bar>;
                  notionalValue = calculateNotionalValue entryPrice absSize 1
              in
              if notionalValue < min_trade_size cfg then (None, st)
              else if lev < required_leverage_min cfg then (None, st)
              else
                (let relevantFill = findRelevantFill userFills pair positionType;
                     entryTimestamp = (case relevantFill of Some f \<Rightarrow> time f | None \<Rightarrow> now env);
                     actualEntryPrice = (case relevantFill of Some f \<Rightarrow> px f | None \<Rightarrow> entryPrice);
                     eventId = generateEventId walletAddress pair entryTimestamp positionType
                 in
                 if checkEventExists env eventId st then (None, st)
                 else
                   (let fundingRate = (case funding_result env of None \<Rightarrow> 0 | Some r \<Rightarrow> r);
                        newPosition =
                          \<lparr>wallet_address = walletAddress, wp_pair = pair,
                           position_type = positionType, entry_timestamp = entryTimestamp,
                           wp_entry_price = actualEntryPrice, trade_size = absSize,
                           leverage = lev, funding_rate = fundingRate,
                           last_updated = now env, open_event_id = eventId\<rparr>
                    in
                    case savePositionAndEvent env newPosition eventId st of
                      (Some e, st1) \<Rightarrow> (Some e, st1)
                    | (None, st1) \<Rightarrow>
                        if queue_send_fails env then (Some QueueError, st1)
                        else (None, st1\<lparr>signal_queue := signal_queue st1 @ [newPosition]\<rparr>))))))"

subsection \<open>Price monitor (the worker stored behind database.ts, from line 350)\<close>

text \<open>
  One row of the table signals with the columns \<^verbatim>\<open>getActiveSignals\<close> selects, and its
  status. \<open>targets_json\<close> is what \<^verbatim>\<open>JSON.parse\<close> makes of the column: \<open>None\<close> when
  parsing throws. One row of the table signal_targets with the columns the monitor reads
  and writes. signal_id is the primary key of signals.
\<close>

record signal_row =
  signal_id :: string
  signal_pair :: string
  signal_type :: string
  entry_price :: real
  stop_loss :: real
  targets_json :: "real list option"
  signal_status :: string
  created_at :: int

record target_row =
  target_signal_id :: string
  target_index :: nat
  is_hit :: bool

record database =
  signals :: "signal_row list"
  signal_targets :: "target_row list"

text \<open>
  The D1 statements the monitor runs, and the outside world of one monitoring cycle: what
  \<^verbatim>\<open>getMarkPrice\<close> of the primary provider and \<^verbatim>\<open>getPrice\<close> of the fallback provider
  do for each instrument (\<open>Inl\<close> when the call throws, \<open>Inr None\<close> when it returns null),
  and which statements fail.
\<close>

datatype d1_statement =
    SelectActiveSignals
  | SelectTargets string
  | UpdateTarget string nat
  | CountHitTargets string
  | UpdateStatus string string

record monitor_env =
  hyperliquid_price :: "string \<Rightarrow> js_error + real option"
  kucoin_price :: "string \<Rightarrow> js_error + real option"
  d1_fails :: "d1_statement \<Rightarrow> bool"

text \<open>
  \<^verbatim>\<open>DatabaseManager.getActiveSignals\<close>, lines 223-239: the rows with status OPEN, newest
  first; a failure is rethrown.
\<close>

definition getActiveSignals :: "monitor_env \<Rightarrow> database \<Rightarrow> js_error + signal_row list" where
  "getActiveSignals env db =
     (if d1_fails env SelectActiveSignals then Inl D1Error
      else Inr (sort_key (\<lambda>s. - created_at s)
                  (filter (\<lambda>s. signal_status s = ''OPEN'') (signals db))))"

text \<open>\<^verbatim>\<open>DatabaseManager.updateSignalStatus\<close>, lines 241-253.\<close>

definition updateSignalStatus ::
  "monitor_env \<Rightarrow> string \<Rightarrow> string \<Rightarrow> database \<Rightarrow> js_error + database" where
  "updateSignalStatus env signalId status db =
     (if d1_fails env (UpdateStatus signalId status) then Inl D1Error
      else Inr (db\<lparr>signals :=
             map (\<lambda>s. if signal_id s = signalId then s\<lparr>signal_status := status\<rparr> else s)
               (signals db)\<rparr>))"

text \<open>\<^verbatim>\<open>DatabaseManager.updateSignalTarget\<close>, lines 255-267.\<close>

definition updateSignalTarget ::
  "monitor_env \<Rightarrow> string \<Rightarrow> nat \<Rightarrow> bool \<Rightarrow> database \<Rightarrow> js_error + database" where
  "updateSignalTarget env signalId targetIndex isHit db =
     (if d1_fails env (UpdateTarget signalId targetIndex) then Inl D1Error
      else Inr (db\<lparr>signal_targets :=
             map (\<lambda>t. if target_signal_id t = signalId \<and> target_index t = targetIndex
                      then t\<lparr>is_hit := isHit\<rparr> else t)
               (signal_targets db)\<rparr>))"

text \<open>
  \<^verbatim>\<open>calculatePriceLevels\<close>, lines 541-561; the object
  \<^verbatim>\<open>{ stopLossPrice, targetPrices }\<close> it returns is the pair of the two. The levels
  are exact products here, where the code rounds every operation to a double: for the
  reference 100 and the rung 3.5 the code has 103.49999999999999 and the model 103.5. A
  price that lies between a level and its rounded value is therefore compared differently
  by the two; the prices at which the monitor is run below are no such prices.
\<close>

definition calculatePriceLevels ::
  "real \<Rightarrow> real \<Rightarrow> real list \<Rightarrow> string \<Rightarrow> real \<times> real list" where
  "calculatePriceLevels entryPrice stopLossPercent targets signalType =
     (if signalType = ''LONG''
      then (let stopLossPrice = entryPrice * (1 + stopLossPercent / 100);
                targetPrices = map (\<lambda>tp. entryPrice * (1 + tp / 100)) targets
            in (stopLossPrice, targetPrices))
      else (let stopLossPrice = entryPrice * (1 - \<bar>stopLossPercent\<bar> / 100);
                targetPrices = map (\<lambda>tp. entryPrice * (1 - tp / 100)) targets
            in (stopLossPrice, targetPrices)))"

text \<open>\<^verbatim>\<open>isStopLossHit\<close>, lines 563-569.\<close>

definition isStopLossHit :: "real \<Rightarrow> real \<Rightarrow> string \<Rightarrow> bool" where
  "isStopLossHit currentPrice stopLossPrice signalType =
     (if signalType = ''LONG'' then currentPrice \<le> stopLossPrice
      else currentPrice \<ge> stopLossPrice)"

text \<open>
  \<^verbatim>\<open>checkTakeProfitHits\<close>, lines 571-615. The rows of the signal are read in ascending
  index order into a map from index to hit flag; the loop over \<open>i = 0, ..., length - 1\<close>
  collects the indices not yet hit whose target price the current price has reached. A
  failed query yields the empty list.
\<close>

definition checkTakeProfitHits ::
  "monitor_env \<Rightarrow> string \<Rightarrow> real \<Rightarrow> real list \<Rightarrow> string \<Rightarrow> database \<Rightarrow> nat list" where
  "checkTakeProfitHits env signalId currentPrice targetPrices signalType db =
     (if d1_fails env (SelectTargets signalId) then []
      else
        (let results = sort_key target_index
                         (filter (\<lambda>t. target_signal_id t = signalId) (signal_targets db));
             targetStatus = fold (\<lambda>row m. m(target_index row \<mapsto> is_hit row)) results Map.empty
         in filter
              (\<lambda>i. (let targetPrice = targetPrices ! i;
                         isAlreadyHit = (case targetStatus i of Some b \<Rightarrow> b | None \<Rightarrow> False)
                     in \<not> isAlreadyHit
                        \<and> (if signalType = ''LONG'' then currentPrice \<ge> targetPrice
                           else currentPrice \<le> targetPrice)))
              [0 ..< length targetPrices]))"

text \<open>\<^verbatim>\<open>checkAllTargetsHit\<close>, lines 720-734: a failed query counts as false.\<close>

definition checkAllTargetsHit :: "monitor_env \<Rightarrow> string \<Rightarrow> nat \<Rightarrow> database \<Rightarrow> bool" where
  "checkAllTargetsHit env signalId totalTargets db =
     (if d1_fails env (CountHitTargets signalId) then False
      else
        (let hitCount = length (filter (\<lambda>t. target_signal_id t = signalId \<and> is_hit t)
                                  (signal_targets db))
         in hitCount \<ge> totalTargets))"

text \<open>
  \<^verbatim>\<open>handleStopLossHit\<close>, lines 617-658. Only the status update touches the tables signals
  and signal_targets; the performance records and the notification that follow it are not
  part of this state. Any error is caught and logged.
\<close>

definition handleStopLossHit :: "monitor_env \<Rightarrow> string \<Rightarrow> database \<Rightarrow> database" where
  "handleStopLossHit env signalId db =
     (case updateSignalStatus env signalId ''SL_HIT'' db of
        Inl e \<Rightarrow> db
      | Inr db1 \<Rightarrow> db1)"

text \<open>
  The loop \<^verbatim>\<open>for (const tpIndex of tpHits) await db.updateSignalTarget(..)\<close> of
  \<^verbatim>\<open>handleTakeProfitHits\<close>: the first failing update throws, and the updates made before
  it stay.
\<close>

fun markTargets :: "monitor_env \<Rightarrow> string \<Rightarrow> nat list \<Rightarrow> database \<Rightarrow> js_error option \<times> database" where
  "markTargets env signalId [] db = (None, db)"
| "markTargets env signalId (tpIndex # rest) db =
     (case updateSignalTarget env signalId tpIndex True db of
        Inl e \<Rightarrow> (Some e, db)
      | Inr db1 \<Rightarrow> markTargets env signalId rest db1)"

text \<open>
  \<^verbatim>\<open>handleTakeProfitHits\<close>, lines 660-718, with the same restriction to the two tables.
  Any error is caught and logged.
\<close>

definition handleTakeProfitHits ::
  "monitor_env \<Rightarrow> string \<Rightarrow> nat list \<Rightarrow> real list \<Rightarrow> database \<Rightarrow> database" where
  "handleTakeProfitHits env signalId tpHits targets db =
     (case markTargets env signalId tpHits db of
        (Some e, db1) \<Rightarrow> db1
      | (None, db1) \<Rightarrow>
          (let allTargetsHit = checkAllTargetsHit env signalId (length targets) db1;
               newStatus = (if allTargetsHit then ''TP_HIT'' else ''PARTIAL_TP'')
           in case updateSignalStatus env signalId newStatus db1 of
                Inl e \<Rightarrow> db1
              | Inr db2 \<Rightarrow> db2))"

text \<open>
  \<^verbatim>\<open>processSignalPriceCheck\<close>, lines 498-539, the transition function of one signal. When
  \<^verbatim>\<open>JSON.parse\<close> throws, the caller catches the error and the tables are untouched.
\<close>

definition processSignalPriceCheck ::
  "monitor_env \<Rightarrow> signal_row \<Rightarrow> real \<Rightarrow> database \<Rightarrow> database" where
  "processSignalPriceCheck env signal currentPrice db =
     (case targets_json signal of
        None \<Rightarrow> db
      | Some targets \<Rightarrow>
          (case calculatePriceLevels (entry_price signal) (stop_loss signal) targets
                  (signal_type signal) of
             (stopLossPrice, targetPrices) \<Rightarrow>
               if isStopLossHit currentPrice stopLossPrice (signal_type signal)
               then handleStopLossHit env (signal_id signal) db
               else
                 (let tpHits = checkTakeProfitHits env (signal_id signal) currentPrice
                                 targetPrices (signal_type signal) db
                  in if tpHits \<noteq> []
                     then handleTakeProfitHits env (signal_id signal) tpHits targets db
                     else db)))"

text \<open>
  \<^verbatim>\<open>getCurrentPrice\<close>, lines 468-496: the primary provider, then the fallback when the
  primary returned null. Both calls stand in one \<^verbatim>\<open>try\<close> block whose handler returns
  null, so a primary that throws yields no price without the fallback being asked.
\<close>

definition getCurrentPrice :: "monitor_env \<Rightarrow> string \<Rightarrow> real option" where
  "getCurrentPrice env pair =
     (case hyperliquid_price env pair of
        Inl e \<Rightarrow> None
      | Inr (Some hlPrice) \<Rightarrow> Some hlPrice
      | Inr None \<Rightarrow>
          (case kucoin_price env pair of
             Inl e \<Rightarrow> None
           | Inr kcPrice \<Rightarrow> kcPrice))"

text \<open>
  \<^verbatim>\<open>processPairSignals\<close>, lines 434-466: without a price the signals of the instrument
  are skipped for this cycle.
\<close>

definition processPairSignals ::
  "monitor_env \<Rightarrow> string \<Rightarrow> signal_row list \<Rightarrow> database \<Rightarrow> database" where
  "processPairSignals env pair sigs db =
     (case getCurrentPrice env pair of
        None \<Rightarrow> db
      | Some currentPrice \<Rightarrow>
          fold (\<lambda>signal d. processSignalPriceCheck env signal currentPrice d) sigs db)"

text \<open>
  \<^verbatim>\<open>groupSignalsByPair\<close>, lines 420-432: a \<^verbatim>\<open>Map\<close> keeps its keys in insertion order,
  so the groups are an association list in order of first occurrence. The loop body sets
  an empty group for a new instrument and then pushes the signal onto the group of its
  instrument.
\<close>

definition groupSignalsByPair_step ::
  "signal_row \<Rightarrow> (string \<times> signal_row list) list \<Rightarrow> (string \<times> signal_row list) list" where
  "groupSignalsByPair_step signal grouped =
     (let grouped1 = (if signal_pair signal \<notin> fst ` set grouped
                      then grouped @ [(signal_pair signal, [])] else grouped)
      in map (\<lambda>(p, ss). if p = signal_pair signal then (p, ss @ [signal]) else (p, ss))
           grouped1)"

definition groupSignalsByPair :: "signal_row list \<Rightarrow> (string \<times> signal_row list) list" where
  "groupSignalsByPair sigs = fold groupSignalsByPair_step sigs []"

text \<open>
  \<^verbatim>\<open>monitorActivePrices\<close>, lines 379-418, one scheduled cycle; \<^verbatim>\<open>scheduled\<close> catches
  what it throws.
\<close>

definition monitorActivePrices :: "monitor_env \<Rightarrow> database \<Rightarrow> database" where
  "monitorActivePrices env db =
     (case getActiveSignals env db of
        Inl e \<Rightarrow> db
      | Inr activeSignals \<Rightarrow>
          if activeSignals = [] then db
          else fold (\<lambda>(pair, sigs) d. processPairSignals env pair sigs d)
                 (groupSignalsByPair activeSignals) db)"

text \<open>A run of scheduled cycles, each with its own outside world.\<close>

definition runCycles :: "monitor_env list \<Rightarrow> database \<Rightarrow> database" where
  "runCycles envs db = fold monitorActivePrices envs db"

text \<open>
  The evaluations of the transition function that one cycle makes, in order: for each
  group, nothing without a price, else every signal of the group at the price of its
  instrument. \<open>monitorActivePrices_evaluations\<close> below shows that a cycle is exactly the
  sequence of these evaluations.
\<close>

definition pairEvaluations ::
  "monitor_env \<Rightarrow> string \<Rightarrow> signal_row list \<Rightarrow> (signal_row \<times> real) list" where
  "pairEvaluations env pair sigs =
     (case getCurrentPrice env pair of
        None \<Rightarrow> []
      | Some currentPrice \<Rightarrow> map (\<lambda>signal. (signal, currentPrice)) sigs)"

definition cycleEvaluations :: "monitor_env \<Rightarrow> database \<Rightarrow> (signal_row \<times> real) list" where
  "cycleEvaluations env db =
     (case getActiveSignals env db of
        Inl e \<Rightarrow> []
      | Inr activeSignals \<Rightarrow>
          concat (map (\<lambda>(pair, sigs). pairEvaluations env pair sigs)
                    (groupSignalsByPair activeSignals)))"

subsection \<open>Relations between the tables before and after\<close>

text \<open>
  What one evaluation for the signal \<open>sid\<close> may do to a row of signals and to a row of
  signal_targets; what a whole cycle may do to them; and what any run does to a hit flag.
\<close>

definition status_step :: "string \<Rightarrow> signal_row \<Rightarrow> signal_row \<Rightarrow> bool" where
  "status_step sid r r' \<longleftrightarrow>
     r' = r
     \<or> (signal_id r = sid
        \<and> (r' = r\<lparr>signal_status := ''SL_HIT''\<rparr> \<or> r' = r\<lparr>signal_status := ''TP_HIT''\<rparr>
           \<or> r' = r\<lparr>signal_status := ''PARTIAL_TP''\<rparr>))"

definition target_step :: "string \<Rightarrow> target_row \<Rightarrow> target_row \<Rightarrow> bool" where
  "target_step sid t t' \<longleftrightarrow> t' = t \<or> (target_signal_id t = sid \<and> t' = t\<lparr>is_hit := True\<rparr>)"

definition status_cycle :: "signal_row \<Rightarrow> signal_row \<Rightarrow> bool" where
  "status_cycle r r' \<longleftrightarrow>
     r' = r
     \<or> (signal_status r = ''OPEN''
        \<and> (r' = r\<lparr>signal_status := ''SL_HIT''\<rparr> \<or> r' = r\<lparr>signal_status := ''TP_HIT''\<rparr>
           \<or> r' = r\<lparr>signal_status := ''PARTIAL_TP''\<rparr>))"

definition target_cycle :: "signal_row list \<Rightarrow> target_row \<Rightarrow> target_row \<Rightarrow> bool" where
  "target_cycle sigs t t' \<longleftrightarrow>
     t' = t
     \<or> (t' = t\<lparr>is_hit := True\<rparr>
        \<and> (\<exists>s \<in> set sigs. signal_id s = target_signal_id t \<and> signal_status s = ''OPEN''))"

definition cycle_inv :: "database \<Rightarrow> database \<Rightarrow> bool" where
  "cycle_inv db0 db \<longleftrightarrow>
     list_all2 status_cycle (signals db0) (signals db)
     \<and> list_all2 (target_cycle (signals db0)) (signal_targets db0) (signal_targets db)"

definition flag_step :: "target_row \<Rightarrow> target_row \<Rightarrow> bool" where
  "flag_step t t' \<longleftrightarrow> t' = t \<or> t' = t\<lparr>is_hit := True\<rparr>"

subsection \<open>A signal to run the monitor on\<close>

text \<open>
  A cycle in which both providers quote the same price for every instrument and no
  statement fails; a LONG ETH signal with the three take-profit rungs 2.0, 3.5 and 5.0 and
  stop-loss -2.5 at a given reference price; the database that holds this signal alone,
  with a given status and the hit flags of its three target rows; and the database in
  which it has just been created.
\<close>

definition cycle_at :: "real \<Rightarrow> monitor_env" where
  "cycle_at price =
     \<lparr>hyperliquid_price = (\<lambda>pair. Inr (Some price)),
      kucoin_price = (\<lambda>pair. Inr (Some price)),
      d1_fails = (\<lambda>statement. False)\<rparr>"

definition long_signal :: "real \<Rightarrow> signal_row" where
  "long_signal reference =
     \<lparr>signal_id = ''sig-eth-long'', signal_pair = ''ETH'', signal_type = ''LONG'',
      entry_price = reference, stop_loss = - 2.5, targets_json = Some [2.0, 3.5, 5.0],
      signal_status = ''OPEN'', created_at = 1724300400000\<rparr>"

definition ladder_database :: "real \<Rightarrow> string \<Rightarrow> bool \<Rightarrow> bool \<Rightarrow> bool \<Rightarrow> database" where
  "ladder_database reference status hit0 hit1 hit2 =
     \<lparr>signals = [(long_signal reference)\<lparr>signal_status := status\<rparr>],
      signal_targets =
        [\<lparr>target_signal_id = ''sig-eth-long'', target_index = 0, is_hit = hit0\<rparr>,
         \<lparr>target_signal_id = ''sig-eth-long'', target_index = 1, is_hit = hit1\<rparr>,
         \<lparr>target_signal_id = ''sig-eth-long'', target_index = 2, is_hit = hit2\<rparr>]\<rparr>"

definition long_database :: "real \<Rightarrow> database" where
  "long_database reference = ladder_database reference ''OPEN'' False False False"

text \<open>The statuses of the rows of a signal and the hit flags of its target rows.\<close>

definition status_of :: "database \<Rightarrow> string \<Rightarrow> string list" where
  "status_of db signalId =
     map signal_status (filter (\<lambda>s. signal_id s = signalId) (signals db))"

definition hit_flags :: "database \<Rightarrow> string \<Rightarrow> bool list" where
  "hit_flags db signalId =
     map is_hit (filter (\<lambda>t. target_signal_id t = signalId) (signal_targets db))"

subsection \<open>Test data of the repository\<close>

text \<open>
  The wallet of \<^verbatim>\<open>backend/test/integration-test.js\<close> and the answers of the mock API
  server for it: one ETH position of size 10.5 entered at 2450.50 with leverage 5, and one
  buy fill of ETH at 2450.50 five minutes before the poll. The configuration is the one
  \<^verbatim>\<open>getConfig\<close> builds from an empty config table.
\<close>

definition TEST_WALLET :: string where
  "TEST_WALLET = ''0xecb63caa47c7c4e77f60f1ce858cf28dc2b82b00''"

definition mock_eth_position :: asset_position where
  "mock_eth_position =
     \<lparr>asset_coin = ''ETH'',
      position = Some \<lparr>szi = 10.5, entryPx = 2450.50, leverage_value = 5\<rparr>\<rparr>"

definition mock_eth_fill :: fill where
  "mock_eth_fill = \<lparr>coin = ''ETH'', px = 2450.50, time = 1724300000000, side = ''B''\<rparr>"

definition mock_user_fills :: "user_fills option" where
  "mock_user_fills = Some \<lparr>fills = Some [mock_eth_fill]\<rparr>"

definition default_config :: config where
  "default_config =
     \<lparr>ignored_pairs = [], monitored_pairs = [], min_trade_size = 0, required_leverage_min = 1\<rparr>"

text \<open>A poll at 1724300300000 ms in which every external call succeeds.\<close>

definition quiet_env :: ingest_env where
  "quiet_env =
     \<lparr>now = 1724300300000, funding_result = Some 0.0001, event_lookup_fails = False,
      position_write_fails = False, event_write_fails = False, queue_send_fails = False\<rparr>"

definition empty_state :: ingest_state where
  "empty_state = \<lparr>wallet_positions = [], ingested_events = [], signal_queue = []\<rparr>"

text \<open>The position the Ingestor builds from that snapshot, and the state after storing it.\<close>

definition mock_eth_row :: wallet_position where
  "mock_eth_row =
     \<lparr>wallet_address = TEST_WALLET, wp_pair = ''ETH'', position_type = ''LONG'',
      entry_timestamp = 1724300000000, wp_entry_price = 2450.50, trade_size = 10.5,
      leverage = 5, funding_rate = 0.0001, last_updated = 1724300300000,
      open_event_id = ''MHhlY2I2M2NhYTQ3YzdjNGU3N2Y2MGYx''\<rparr>"

definition ingested_once :: ingest_state where
  "ingested_once =
     \<lparr>wallet_positions = [mock_eth_row],
      ingested_events = [''MHhlY2I2M2NhYTQ3YzdjNGU3N2Y2MGYx''],
      signal_queue = [mock_eth_row]\<rparr>"

section \<open>Properties\<close>

subsection \<open>Performance calculator\<close>

lemma calculatePnL_formula:
  "calculatePnL e x sz ty fr h =
     (if ty = ''LONG'' then 1 else - 1) * (x - e) * sz - fr * sz * e * (h / 8)"
  by (simp add: calculatePnL_def)

text \<open>
  Claim C4. The specification says the funding cost is
  \<open>fundingRate \<times> size \<times> entryPrice \<times> \<lceil>durationHours / 8\<rceil>\<close> and that its absolute value is
  subtracted. The source subtracts the signed product with \<open>durationHours / 8\<close>: for a LONG
  signal from 100 to 110, size 1, funding rate \<open>-0.01\<close> held 8 hours it returns 11 (the
  funding is credited) where the specified formula gives 9; with rate \<open>0.01\<close> held 4 hours
  the source gives 9.5 where the specified formula charges a whole period and gives 9.
\<close>

theorem calculatePnL_funding_signed:
  "calculatePnL 100 110 1 ''LONG'' (- 0.01) 8 = 11
   \<and> spec_calculatePnL 100 110 1 ''LONG'' (- 0.01) 8 = 9
   \<and> calculatePnL 100 110 1 ''LONG'' 0.01 4 = 9.5
   \<and> spec_calculatePnL 100 110 1 ''LONG'' 0.01 4 = 9"
proof -
  have c: "\<lceil>(1::real) / 2\<rceil> = 1"
    by (rule ceiling_unique) simp_all
  show ?thesis
    by (simp add: calculatePnL_def spec_calculatePnL_def c)
qed

text \<open>
  Claim C5. With a zero funding rate, whatever the duration, a SHORT signal entered at
  42100.00 and closed at 41000.00 with size 1 has PnL exactly 1100.00, and a LONG signal
  with the same entry, exit and size has PnL exactly -1100.00.
\<close>

theorem calculatePnL_sign_example:
  "calculatePnL 42100.00 41000.00 1 ''SHORT'' 0 durationHours = 1100.00
   \<and> calculatePnL 42100.00 41000.00 1 ''LONG'' 0 durationHours = - 1100.00"
  by (simp add: calculatePnL_def)

text \<open>
  Claim C10. For every status string other than TP_HIT, SL_HIT and PARTIAL_TP,
  determineOutcome returns WIN exactly when the PnL is strictly positive and LOSS otherwise;
  it never returns PARTIAL there, and a PnL of exactly zero is a LOSS.
\<close>

theorem determineOutcome_manual_close:
  assumes "status \<noteq> ''TP_HIT''" and "status \<noteq> ''SL_HIT''" and "status \<noteq> ''PARTIAL_TP''"
  shows "(determineOutcome status pnl = WIN \<longleftrightarrow> pnl > 0)
         \<and> (determineOutcome status pnl = LOSS \<longleftrightarrow> \<not> pnl > 0)
         \<and> determineOutcome status pnl \<noteq> PARTIAL
         \<and> determineOutcome status 0 = LOSS"
  using assms by (simp add: determineOutcome_def)

theorem determineOutcome_manual_close_witness:
  "determineOutcome ''CLOSED_MANUAL'' 0 = LOSS
   \<and> determineOutcome ''CLOSED_MANUAL'' 12.5 = WIN
   \<and> determineOutcome ''CLOSED_MANUAL'' (- 3) = LOSS
   \<and> determineOutcome ''CLOSED_MANUAL'' 0 \<noteq> PARTIAL"
  using determineOutcome_manual_close [of "''CLOSED_MANUAL''" 0]
        determineOutcome_manual_close [of "''CLOSED_MANUAL''" "12.5"]
        determineOutcome_manual_close [of "''CLOSED_MANUAL''" "- 3"]
  by simp

subsection \<open>Retrying external calls\<close>

lemma withRetry_loop_calls_bound:
  "calls (withRetry_loop operation options random attempt lastError n delays)
     \<le> n + nat (maxRetries options + 1 - int attempt)"
proof (induction operation options random attempt lastError n delays
         rule: withRetry_loop.induct)
  case (1 operation options random attempt lastError n delays)
  show ?case
  proof (cases "int attempt \<le> maxRetries options")
    case False
    then show ?thesis by (subst withRetry_loop.simps) simp
  next
    case le: True
    show ?thesis
    proof (cases "operation attempt")
      case (Inr v)
      with le show ?thesis by (subst withRetry_loop.simps) simp
    next
      case (Inl e)
      show ?thesis
      proof (cases "nonRetryable e \<or> int attempt = maxRetries options")
        case True
        with le Inl show ?thesis by (subst withRetry_loop.simps) auto
      next
        case False
        with le Inl 1 [of e]
        have "calls (withRetry_loop operation options random (attempt + 1) (Some e) (n + 1)
                (delays @ [min (baseDelay options * backoffMultiplier options ^ attempt)
                             (maxDelay options) + random attempt * 1000]))
                \<le> (n + 1) + nat (maxRetries options + 1 - int (attempt + 1))"
          by (simp add: Let_def)
        with le Inl False show ?thesis
          by (subst withRetry_loop.simps) (simp add: Let_def)
      qed
    qed
  qed
qed

text \<open>The operation is invoked at most \<open>maxRetries + 1\<close> times.\<close>

lemma withRetry_calls_bound:
  "calls (withRetry operation options random) \<le> nat (maxRetries options + 1)"
  using withRetry_loop_calls_bound [of operation options random 0 None 0 "[]"]
  by (simp add: withRetry_def)

text \<open>
  An error that \<^const>\<open>nonRetryable\<close> accepts is thrown after the first invocation,
  without any sleep.
\<close>

lemma withRetry_nonRetryable_immediate:
  assumes "0 \<le> maxRetries options" and "operation 0 = Inl e" and "nonRetryable e"
  shows "withRetry operation options random = \<lparr>returned = Inl e, calls = 1, slept = []\<rparr>"
  using assms by (simp add: withRetry_def withRetry_loop.simps)

text \<open>
  A server error (status 503) and a timeout are retried: with the default options the
  operation is invoked four times, after delays of 1000, 2000 and 4000 ms plus jitter.
\<close>

lemma withRetry_server_error_retried:
  "withRetry (\<lambda>k. Inl (ApiError (Some 503))) default_retry_options random =
     \<lparr>returned = Inl (ApiError (Some 503)), calls = 4,
      slept = [1000 + random 0 * 1000, 2000 + random 1 * 1000, 4000 + random 2 * 1000]\<rparr>"
proof -
  have n: "\<not> nonRetryable (ApiError (Some 503))" by (simp add: nonRetryable_def)
  show ?thesis
    unfolding withRetry_def
    apply (subst withRetry_loop.simps, simp add: n default_retry_options_def)
    apply (subst withRetry_loop.simps, simp add: n)
    apply (subst withRetry_loop.simps, simp add: n)
    apply (subst withRetry_loop.simps, simp add: n numeral_2_eq_2)
    done
qed

lemma withRetry_timeout_retried:
  "withRetry (\<lambda>k. Inl RetryableError) default_retry_options random =
     \<lparr>returned = Inl RetryableError, calls = 4,
      slept = [1000 + random 0 * 1000, 2000 + random 1 * 1000, 4000 + random 2 * 1000]\<rparr>"
proof -
  have n: "\<not> nonRetryable RetryableError" by (simp add: nonRetryable_def)
  show ?thesis
    unfolding withRetry_def
    apply (subst withRetry_loop.simps, simp add: n default_retry_options_def)
    apply (subst withRetry_loop.simps, simp add: n)
    apply (subst withRetry_loop.simps, simp add: n)
    apply (subst withRetry_loop.simps, simp add: n numeral_2_eq_2)
    done
qed

text \<open>
  Claim C8. The claim has a rate-limited response (status 429) retried with backoff. In the
  source the test \<^verbatim>\<open>error.status < 500\<close> also holds for 429, so an operation that throws
  \<^verbatim>\<open>new ApiError('Rate limited', 429)\<close>, as every client in api-clients.ts does, is
  invoked once and its error rethrown at once, with no delay and no retry; a 404 behaves
  the same way.
\<close>

theorem withRetry_rate_limited_not_retried:
  "nonRetryable (ApiError (Some 429))
   \<and> withRetry (\<lambda>k. Inl (ApiError (Some 429))) default_retry_options random =
       \<lparr>returned = Inl (ApiError (Some 429)), calls = 1, slept = []\<rparr>
   \<and> withRetry (\<lambda>k. Inl (ApiError (Some 404))) default_retry_options random =
       \<lparr>returned = Inl (ApiError (Some 404)), calls = 1, slept = []\<rparr>"
  by (simp add: withRetry_def withRetry_loop.simps default_retry_options_def nonRetryable_def)

subsection \<open>The idempotency key and position ingestion\<close>

lemma generateEventId_same_minute:
  "t1 div 60000 = t2 div 60000 \<Longrightarrow> generateEventId w p t1 d = generateEventId w p t2 d"
  by (simp add: generateEventId_def)

lemma mock_event_id:
  "generateEventId ''0xecb63caa47c7c4e77f60f1ce858cf28dc2b82b00'' ''ETH'' 1724300000000 ''LONG''
     = ''MHhlY2I2M2NhYTQ3YzdjNGU3N2Y2MGYx''"
  by (simp add: generateEventId_def string_of_int_def string_of_nat.simps digit_char_def
        btoa_def base64_digit_def base64_alphabet_def is_alnum_def)

text \<open>
  The key keeps the first 32 base64 characters, that is the first 24 characters of the
  data, which lie inside a 42-character wallet address: for this wallet another
  instrument, direction and minute give the same key.
\<close>

lemma mock_event_id_other_position:
  "generateEventId ''0xecb63caa47c7c4e77f60f1ce858cf28dc2b82b00'' ''BTC'' 1724999999999 ''SHORT''
     = ''MHhlY2I2M2NhYTQ3YzdjNGU3N2Y2MGYx''"
  by (simp add: generateEventId_def string_of_int_def string_of_nat.simps digit_char_def
        btoa_def base64_digit_def base64_alphabet_def is_alnum_def)

lemma processPosition_duplicate:
  assumes "position ap = Some pos" and "\<not> event_lookup_fails env"
    and "generateEventId w (asset_coin ap)
           (case findRelevantFill uf (asset_coin ap)
                   (if szi pos > 0 then ''LONG'' else ''SHORT'') of
              Some f \<Rightarrow> time f | None \<Rightarrow> now env)
           (if szi pos > 0 then ''LONG'' else ''SHORT'') \<in> set (ingested_events st)"
  shows "processPosition w ap uf cfg env st = (None, st)"
  using assms by (simp add: processPosition_def Let_def checkEventExists_def)



text \<open>The first ingestion of the mock snapshot stores the row and the key and publishes.\<close>

lemma first_ingestion:
  "processPosition TEST_WALLET mock_eth_position mock_user_fills default_config quiet_env
     empty_state = (None, ingested_once)"
  by (simp add: processPosition_def Let_def findRelevantFill_def calculateNotionalValue_def
        checkEventExists_def savePositionAndEvent_def saveWalletPosition_def saveEvent_def
        TEST_WALLET_def mock_eth_position_def mock_user_fills_def mock_eth_fill_def
        default_config_def quiet_env_def empty_state_def ingested_once_def mock_eth_row_def
        mock_event_id)

lemmas fixture_defs =
  TEST_WALLET_def mock_eth_position_def mock_user_fills_def mock_eth_fill_def
  default_config_def quiet_env_def empty_state_def ingested_once_def mock_eth_row_def

lemmas ingest_defs =
  processPosition_def Let_def findRelevantFill_def calculateNotionalValue_def
  checkEventExists_def savePositionAndEvent_def saveWalletPosition_def saveEvent_def

text \<open>
  Claim C6, as stated, fails where the key lookup itself fails. The key of the mock
  snapshot is in the store after the first ingestion; when the snapshot is delivered again
  one minute later and the lookup query fails, \<^verbatim>\<open>checkEventExists\<close> answers false, the
  position row is written again and a second position-open event is published: the
  ingestion is not a no-op.
\<close>

theorem duplicate_with_failed_lookup_counterexample:
  "generateEventId TEST_WALLET ''ETH'' 1724300000000 ''LONG''
     \<in> set (ingested_events ingested_once)
   \<and> processPosition TEST_WALLET mock_eth_position mock_user_fills default_config
        (quiet_env\<lparr>now := 1724300360000, event_lookup_fails := True\<rparr>) ingested_once
       = (None,
          \<lparr>wallet_positions = [mock_eth_row\<lparr>last_updated := 1724300360000\<rparr>],
           ingested_events = [''MHhlY2I2M2NhYTQ3YzdjNGU3N2Y2MGYx''],
           signal_queue = [mock_eth_row, mock_eth_row\<lparr>last_updated := 1724300360000\<rparr>]\<rparr>)
   \<and> \<lparr>wallet_positions = [mock_eth_row\<lparr>last_updated := 1724300360000\<rparr>],
       ingested_events = [''MHhlY2I2M2NhYTQ3YzdjNGU3N2Y2MGYx''],
       signal_queue = [mock_eth_row, mock_eth_row\<lparr>last_updated := 1724300360000\<rparr>]\<rparr>
       \<noteq> ingested_once"
  by (simp add: ingest_defs fixture_defs mock_event_id)

text \<open>
  Claim C6, amended. The key is a function of the wallet, the instrument, the direction
  and the minute of the entry timestamp: two timestamps in the same minute give the same
  key. When the key computed for a snapshot is already in the store and the lookup query
  succeeds, \<^verbatim>\<open>processPosition\<close> returns without an error and leaves the positions, the
  keys and the queue exactly as they were.
\<close>

theorem idempotency_key_and_duplicate_noop:
  "(t1 div 60000 = t2 div 60000 \<longrightarrow> generateEventId w p t1 d = generateEventId w p t2 d)
   \<and> (position ap = Some pos \<and> \<not> event_lookup_fails env
        \<and> generateEventId w (asset_coin ap)
             (case findRelevantFill uf (asset_coin ap)
                     (if szi pos > 0 then ''LONG'' else ''SHORT'') of
                Some f \<Rightarrow> time f | None \<Rightarrow> now env)
             (if szi pos > 0 then ''LONG'' else ''SHORT'') \<in> set (ingested_events st)
      \<longrightarrow> processPosition w ap uf cfg env st = (None, st))"
  using generateEventId_same_minute [of t1 t2 w p d]
        processPosition_duplicate [of ap pos env w uf st cfg]
  by blast

theorem idempotency_key_and_duplicate_noop_witness:
  "generateEventId TEST_WALLET ''ETH'' 1724300000000 ''LONG''
     = generateEventId TEST_WALLET ''ETH'' 1724300039999 ''LONG''
   \<and> processPosition TEST_WALLET mock_eth_position mock_user_fills default_config
        (quiet_env\<lparr>now := 1724300360000\<rparr>) ingested_once = (None, ingested_once)"
proof -
  let ?pos = "\<lparr>szi = 10.5, entryPx = 2450.50, leverage_value = 5\<rparr>"
  let ?env = "quiet_env\<lparr>now := 1724300360000\<rparr>"
  have m: "(1724300000000::int) div 60000 = 1724300039999 div 60000"
    by simp
  have p: "position mock_eth_position = Some ?pos"
    by (simp add: mock_eth_position_def)
  have l: "\<not> event_lookup_fails ?env"
    by (simp add: quiet_env_def)
  have k: "generateEventId TEST_WALLET (asset_coin mock_eth_position)
             (case findRelevantFill mock_user_fills (asset_coin mock_eth_position)
                     (if szi ?pos > 0 then ''LONG'' else ''SHORT'') of
                Some f \<Rightarrow> time f | None \<Rightarrow> now ?env)
             (if szi ?pos > 0 then ''LONG'' else ''SHORT'')
           \<in> set (ingested_events ingested_once)"
    by (simp add: findRelevantFill_def fixture_defs mock_event_id)
  show ?thesis
    using idempotency_key_and_duplicate_noop
            [of 1724300000000 1724300039999 TEST_WALLET "''ETH''" "''LONG''"
                mock_eth_position ?pos ?env mock_user_fills ingested_once default_config]
          m p l k
    by blast
qed




subsection \<open>The fill that anchors an entry\<close>

lemma findRelevantFill_absent:
  "findRelevantFill None p ty = None"
  "fills uf = None \<Longrightarrow> findRelevantFill (Some uf) p ty = None"
  by (simp_all add: findRelevantFill_def)

lemma findRelevantFill_greatest_time:
  assumes "fills uf = Some fs"
  shows "case findRelevantFill (Some uf) p ty of
           None \<Rightarrow>
             \<not> (\<exists>g \<in> set fs. coin g = p \<and> (if side g = ''B'' then ''LONG'' else ''SHORT'') = ty)
         | Some f \<Rightarrow>
             f \<in> set fs \<and> coin f = p \<and> (if side f = ''B'' then ''LONG'' else ''SHORT'') = ty
             \<and> (\<forall>g \<in> set fs.
                   coin g = p \<and> (if side g = ''B'' then ''LONG'' else ''SHORT'') = ty
                   \<longrightarrow> time g \<le> time f)"
proof -
  define m where
    "m = filter (\<lambda>f. coin f = p \<and> (if side f = ''B'' then ''LONG'' else ''SHORT'') = ty) fs"
  define srt where "srt = sort_key (\<lambda>f. - time f) m"
  have r: "findRelevantFill (Some uf) p ty = (case srt of [] \<Rightarrow> None | f # _ \<Rightarrow> Some f)"
    using assms by (simp add: findRelevantFill_def srt_def m_def)
  have s: "set srt = set m"
    by (simp add: srt_def)
  have so: "sorted (map (\<lambda>f. - time f) srt)"
    by (simp add: srt_def)
  show ?thesis
  proof (cases srt)
    case Nil
    with s have "set m = {}" by simp
    then have "\<not> (\<exists>g \<in> set fs. coin g = p
                  \<and> (if side g = ''B'' then ''LONG'' else ''SHORT'') = ty)"
      unfolding m_def by (auto simp: filter_empty_conv)
    with r Nil show ?thesis by simp
  next
    case (Cons f rest)
    with s have fm: "f \<in> set m" by auto
    have "\<forall>g \<in> set m. time g \<le> time f"
    proof
      fix g assume "g \<in> set m"
      with s Cons have "g = f \<or> g \<in> set rest" by auto
      with so Cons show "time g \<le> time f" by auto
    qed
    with fm r Cons show ?thesis unfolding m_def by auto
  qed
qed

text \<open>
  When \<^const>\<open>processPosition\<close> publishes a position, its entry timestamp and entry price
  are those of the fill found, or the clock and the snapshot's average entry price when no
  fill was found.
\<close>

lemma processPosition_entry_data:
  assumes "processPosition w ap uf cfg env st = (r, st')"
    and "signal_queue st' \<noteq> signal_queue st" and "position ap = Some pos"
  shows "\<exists>np. signal_queue st' = signal_queue st @ [np] \<and> np \<in> set (wallet_positions st')
           \<and> (case findRelevantFill uf (asset_coin ap)
                      (if szi pos > 0 then ''LONG'' else ''SHORT'') of
                 None \<Rightarrow> entry_timestamp np = now env \<and> wp_entry_price np = entryPx pos
               | Some f \<Rightarrow> entry_timestamp np = time f \<and> wp_entry_price np = px f)"
  using assms
  by (auto simp add: processPosition_def Let_def savePositionAndEvent_def
        saveWalletPosition_def saveEvent_def
      split: if_splits option.splits prod.splits sum.splits)

text \<open>
  Claim C9. \<^verbatim>\<open>findRelevantFill\<close> returns none when the fills are missing or none of
  them has the instrument and the implied direction (side B is LONG, any other side
  SHORT); otherwise it returns a matching fill whose time is greatest among the matching
  fills. A position that \<^verbatim>\<open>processPosition\<close> publishes carries the time and the price of
  that fill, and the current time and the snapshot's average entry price when there is
  none.
\<close>

theorem findRelevantFill_most_recent:
  "findRelevantFill None pair ty = None
   \<and> (fills uf = None \<longrightarrow> findRelevantFill (Some uf) pair ty = None)
   \<and> (fills uf = Some fs \<longrightarrow>
        (case findRelevantFill (Some uf) pair ty of
           None \<Rightarrow>
             \<not> (\<exists>g \<in> set fs. coin g = pair
                   \<and> (if side g = ''B'' then ''LONG'' else ''SHORT'') = ty)
         | Some f \<Rightarrow>
             f \<in> set fs \<and> coin f = pair
             \<and> (if side f = ''B'' then ''LONG'' else ''SHORT'') = ty
             \<and> (\<forall>g \<in> set fs.
                   coin g = pair \<and> (if side g = ''B'' then ''LONG'' else ''SHORT'') = ty
                   \<longrightarrow> time g \<le> time f)))
   \<and> (processPosition w ap userFills cfg env st = (r, st')
        \<and> signal_queue st' \<noteq> signal_queue st \<and> position ap = Some pos \<longrightarrow>
        (\<exists>np. signal_queue st' = signal_queue st @ [np] \<and> np \<in> set (wallet_positions st')
           \<and> (case findRelevantFill userFills (asset_coin ap)
                      (if szi pos > 0 then ''LONG'' else ''SHORT'') of
                 None \<Rightarrow> entry_timestamp np = now env \<and> wp_entry_price np = entryPx pos
               | Some f \<Rightarrow> entry_timestamp np = time f \<and> wp_entry_price np = px f)))"
  using findRelevantFill_absent(1) [of pair ty] findRelevantFill_absent(2) [of uf pair ty]
        findRelevantFill_greatest_time [of uf fs pair ty]
        processPosition_entry_data [of w ap userFills cfg env st r st' pos]
  by blast

text \<open>
  Among an older buy fill of ETH, a later sell fill of ETH, the mock buy fill and a still
  later buy fill of BTC, the fill chosen for a LONG ETH position is the mock buy fill, not
  the first matching one; with only the sell and the BTC fill nothing is chosen and the
  published position carries the clock and the snapshot's entry price.
\<close>

theorem findRelevantFill_most_recent_witness:
  "findRelevantFill
      (Some \<lparr>fills = Some [mock_eth_fill\<lparr>px := 2440, time := 1724299000000\<rparr>,
                           mock_eth_fill\<lparr>time := 1724300200000, side := ''A''\<rparr>,
                           mock_eth_fill,
                           mock_eth_fill\<lparr>coin := ''BTC'', time := 1724300250000\<rparr>]\<rparr>)
      ''ETH'' ''LONG'' = Some mock_eth_fill
   \<and> findRelevantFill
      (Some \<lparr>fills = Some [mock_eth_fill\<lparr>time := 1724300200000, side := ''A''\<rparr>,
                           mock_eth_fill\<lparr>coin := ''BTC'', time := 1724300250000\<rparr>]\<rparr>)
      ''ETH'' ''LONG'' = None
   \<and> (\<exists>np. signal_queue (snd (processPosition TEST_WALLET mock_eth_position
                 (Some \<lparr>fills = Some []\<rparr>) default_config quiet_env empty_state)) = [np]
         \<and> entry_timestamp np = 1724300300000 \<and> wp_entry_price np = 2450.50)"
proof -
  let ?fs = "[mock_eth_fill\<lparr>px := 2440, time := 1724299000000\<rparr>,
              mock_eth_fill\<lparr>time := 1724300200000, side := ''A''\<rparr>,
              mock_eth_fill,
              mock_eth_fill\<lparr>coin := ''BTC'', time := 1724300250000\<rparr>]"
  let ?gs = "[mock_eth_fill\<lparr>time := 1724300200000, side := ''A''\<rparr>,
              mock_eth_fill\<lparr>coin := ''BTC'', time := 1724300250000\<rparr>]"
  let ?run = "processPosition TEST_WALLET mock_eth_position (Some \<lparr>fills = Some []\<rparr>)
                default_config quiet_env empty_state"
  have a: "findRelevantFill (Some \<lparr>fills = Some ?fs\<rparr>) ''ETH'' ''LONG'' = Some mock_eth_fill"
    using findRelevantFill_most_recent
            [where uf = "\<lparr>fills = Some ?fs\<rparr>" and fs = ?fs and pair = "''ETH''"
               and ty = "''LONG''"]
    by (simp add: findRelevantFill_def mock_eth_fill_def)
  have b: "findRelevantFill (Some \<lparr>fills = Some ?gs\<rparr>) ''ETH'' ''LONG'' = None"
    using findRelevantFill_most_recent
            [where uf = "\<lparr>fills = Some ?gs\<rparr>" and fs = ?gs and pair = "''ETH''"
               and ty = "''LONG''"]
    by (simp add: findRelevantFill_def mock_eth_fill_def)
  let ?pos = "\<lparr>szi = 10.5, entryPx = 2450.50, leverage_value = 5\<rparr>"
  have q: "signal_queue (snd ?run) \<noteq> signal_queue empty_state"
    by (simp add: ingest_defs fixture_defs)
  have pc: "?run = (fst ?run, snd ?run)"
    by simp
  have p: "position mock_eth_position = Some ?pos"
    by (simp add: mock_eth_position_def)
  have n: "findRelevantFill (Some \<lparr>fills = Some []\<rparr>) (asset_coin mock_eth_position)
             (if szi ?pos > 0 then ''LONG'' else ''SHORT'') = None"
    by (simp add: findRelevantFill_def)
  have "\<exists>np. signal_queue (snd ?run) = signal_queue empty_state @ [np]
           \<and> np \<in> set (wallet_positions (snd ?run))
           \<and> (case findRelevantFill (Some \<lparr>fills = Some []\<rparr>) (asset_coin mock_eth_position)
                      (if szi ?pos > 0 then ''LONG'' else ''SHORT'') of
                 None \<Rightarrow> entry_timestamp np = now quiet_env \<and> wp_entry_price np = entryPx ?pos
               | Some f \<Rightarrow> entry_timestamp np = time f \<and> wp_entry_price np = px f)"
    using findRelevantFill_most_recent
            [where w = TEST_WALLET and ap = mock_eth_position
               and userFills = "Some \<lparr>fills = Some []\<rparr>" and cfg = default_config
               and env = quiet_env and st = empty_state and r = "fst ?run"
               and st' = "snd ?run" and pos = ?pos]
          pc q p
    by blast
  then have c: "\<exists>np. signal_queue (snd ?run) = [np]
             \<and> entry_timestamp np = 1724300300000 \<and> wp_entry_price np = 2450.50"
    unfolding n by (auto simp add: quiet_env_def empty_state_def)
  from a b c show ?thesis by blast
qed

subsection \<open>Price monitor: what one evaluation and one cycle may change\<close>

lemma status_step_refl: "list_all2 (status_step sid) xs xs"
  by (simp add: list_all2_refl status_step_def)

lemma target_step_refl: "list_all2 (target_step sid) xs xs"
  by (simp add: list_all2_refl target_step_def)

lemma target_step_trans:
  assumes "list_all2 (target_step sid) xs ys" and "list_all2 (target_step sid) ys zs"
  shows "list_all2 (target_step sid) xs zs"
  by (rule list_all2_trans [OF _ assms]) (auto simp: target_step_def)

lemma updateSignalStatus_step:
  assumes "updateSignalStatus env sid st db = Inr db'"
    and "st = ''SL_HIT'' \<or> st = ''TP_HIT'' \<or> st = ''PARTIAL_TP''"
  shows "list_all2 (status_step sid) (signals db) (signals db')"
    and "signal_targets db' = signal_targets db"
  using assms
  by (auto simp: updateSignalStatus_def list_all2_map2 list_all2_refl status_step_def
           intro!: list_all2_all_nthI split: if_splits)

lemma updateSignalTarget_step:
  assumes "updateSignalTarget env sid i True db = Inr db'"
  shows "list_all2 (target_step sid) (signal_targets db) (signal_targets db')"
    and "signals db' = signals db"
  using assms
  by (auto simp: updateSignalTarget_def list_all2_map2 target_step_def
           intro!: list_all2_all_nthI split: if_splits)

lemma markTargets_step:
  "markTargets env sid hits db = (r, db')
     \<Longrightarrow> list_all2 (target_step sid) (signal_targets db) (signal_targets db')
         \<and> signals db' = signals db"
proof (induction hits arbitrary: db)
  case Nil
  then show ?case by (simp add: target_step_refl)
next
  case (Cons i hits)
  show ?case
  proof (cases "updateSignalTarget env sid i True db")
    case (Inl e)
    with Cons.prems show ?thesis by (simp add: target_step_refl)
  next
    case (Inr db1)
    with Cons.prems have "markTargets env sid hits db1 = (r, db')" by simp
    from Cons.IH [OF this] updateSignalTarget_step [OF Inr] show ?thesis
      by (auto intro: target_step_trans)
  qed
qed

lemma handleStopLossHit_step:
  "list_all2 (status_step sid) (signals db) (signals (handleStopLossHit env sid db))"
  "signal_targets (handleStopLossHit env sid db) = signal_targets db"
  using updateSignalStatus_step [of env sid "''SL_HIT''" db]
  by (auto simp: handleStopLossHit_def status_step_refl split: sum.splits)

lemma handleTakeProfitHits_step:
  "list_all2 (status_step sid) (signals db) (signals (handleTakeProfitHits env sid hits tg db))"
  "list_all2 (target_step sid) (signal_targets db)
     (signal_targets (handleTakeProfitHits env sid hits tg db))"
proof -
  obtain r db1 where m: "markTargets env sid hits db = (r, db1)"
    by (cases "markTargets env sid hits db")
  note s1 = markTargets_step [OF m]
  show "list_all2 (status_step sid) (signals db) (signals (handleTakeProfitHits env sid hits tg db))"
    using s1 m
      updateSignalStatus_step [of env sid "''TP_HIT''" db1]
      updateSignalStatus_step [of env sid "''PARTIAL_TP''" db1]
    by (auto simp: handleTakeProfitHits_def Let_def status_step_refl split: sum.splits option.splits)
  show "list_all2 (target_step sid) (signal_targets db)
     (signal_targets (handleTakeProfitHits env sid hits tg db))"
    using s1 m
      updateSignalStatus_step [of env sid "''TP_HIT''" db1]
      updateSignalStatus_step [of env sid "''PARTIAL_TP''" db1]
    by (auto simp: handleTakeProfitHits_def Let_def split: sum.splits option.splits)
qed

lemma processSignalPriceCheck_step:
  "list_all2 (status_step (signal_id s)) (signals db) (signals (processSignalPriceCheck env s p db))"
  "list_all2 (target_step (signal_id s)) (signal_targets db)
     (signal_targets (processSignalPriceCheck env s p db))"
  by (auto simp: processSignalPriceCheck_def Let_def status_step_refl target_step_refl
        handleStopLossHit_step handleTakeProfitHits_step split: option.splits prod.splits)




lemma status_cycle_id: "status_cycle r r' \<Longrightarrow> signal_id r' = signal_id r"
  by (auto simp: status_cycle_def)

lemma status_cycle_step:
  assumes d: "distinct (map signal_id xs)" and s: "s \<in> set xs" "signal_status s = ''OPEN''"
    and c: "list_all2 status_cycle xs ys" and st: "list_all2 (status_step (signal_id s)) ys zs"
  shows "list_all2 status_cycle xs zs"
proof (rule list_all2_all_nthI)
  show "length xs = length zs"
    using c st by (simp add: list_all2_lengthD)
next
  fix i assume i: "i < length xs"
  then have iy: "i < length ys" using c by (simp add: list_all2_lengthD)
  have xy: "status_cycle (xs ! i) (ys ! i)" using c i by (rule list_all2_nthD)
  have yz: "status_step (signal_id s) (ys ! i) (zs ! i)" using st iy by (rule list_all2_nthD)
  show "status_cycle (xs ! i) (zs ! i)"
  proof (cases "zs ! i = ys ! i")
    case True
    with xy show ?thesis by simp
  next
    case False
    with yz have idy: "signal_id (ys ! i) = signal_id s" by (auto simp: status_step_def)
    with status_cycle_id [OF xy] have "signal_id (xs ! i) = signal_id s" by simp
    moreover have "xs ! i \<in> set xs" using i by simp
    moreover have "inj_on signal_id (set xs)" using d by (simp add: distinct_map)
    ultimately have "xs ! i = s" using s(1) by (auto dest: inj_onD)
    with s(2) have op: "signal_status (xs ! i) = ''OPEN''" by simp
    from xy yz False op show ?thesis
      by (auto simp: status_cycle_def status_step_def)
  qed
qed

lemma target_cycle_step:
  assumes s: "s \<in> set sigs" "signal_status s = ''OPEN''"
    and c: "list_all2 (target_cycle sigs) xs ys"
    and st: "list_all2 (target_step (signal_id s)) ys zs"
  shows "list_all2 (target_cycle sigs) xs zs"
proof (rule list_all2_trans [OF _ c st])
  fix a b c assume "target_cycle sigs a b" "target_step (signal_id s) b c"
  with s show "target_cycle sigs a c"
    by (auto simp: target_cycle_def target_step_def)
qed


lemma cycle_inv_refl: "cycle_inv db db"
  by (simp add: cycle_inv_def list_all2_refl status_cycle_def target_cycle_def)

lemma fold_signals_cycle:
  assumes d: "distinct (map signal_id (signals db0))"
    and ss: "\<And>s. s \<in> set ss \<Longrightarrow> s \<in> set (signals db0) \<and> signal_status s = ''OPEN''"
    and inv: "cycle_inv db0 db"
  shows "cycle_inv db0 (fold (\<lambda>s d. processSignalPriceCheck env s p d) ss db)"
  using ss inv
proof (induction ss arbitrary: db)
  case Nil
  then show ?case by simp
next
  case (Cons s ss)
  have s: "s \<in> set (signals db0)" "signal_status s = ''OPEN''"
    using Cons.prems(1) [of s] by simp_all
  have "cycle_inv db0 (processSignalPriceCheck env s p db)"
    using Cons.prems(2) status_cycle_step [OF d s _ processSignalPriceCheck_step(1)]
      target_cycle_step [OF s _ processSignalPriceCheck_step(2)]
    by (simp add: cycle_inv_def)
  with Cons.IH [of "processSignalPriceCheck env s p db"] Cons.prems(1) show ?case
    by simp
qed

lemma processPairSignals_cycle:
  assumes "distinct (map signal_id (signals db0))"
    and "\<And>s. s \<in> set ss \<Longrightarrow> s \<in> set (signals db0) \<and> signal_status s = ''OPEN''"
    and "cycle_inv db0 db"
  shows "cycle_inv db0 (processPairSignals env pr ss db)"
  using fold_signals_cycle [OF assms] assms(3)
  by (simp add: processPairSignals_def split: option.splits)

lemma step_keys: "map fst (groupSignalsByPair_step s g) =
   (if signal_pair s \<in> fst ` set g then map fst g else map fst g @ [signal_pair s])"
  by (auto simp: groupSignalsByPair_step_def Let_def split: prod.splits)

lemma push_mset:
  "distinct (map fst g) \<Longrightarrow>
   mset (concat (map snd (map (\<lambda>(p, ss). if p = k then (p, ss @ [s]) else (p, ss)) g)))
     = mset (concat (map snd g)) + (if k \<in> fst ` set g then {#s#} else {#})"
  by (induction g) (auto split: prod.splits simp: rev_image_eqI)

lemma step_mset:
  assumes "distinct (map fst g)"
  shows "mset (concat (map snd (groupSignalsByPair_step s g))) = mset (concat (map snd g)) + {#s#}"
proof (cases "signal_pair s \<in> fst ` set g")
  case True
  with push_mset [OF assms, of "signal_pair s" s] show ?thesis
    by (simp add: groupSignalsByPair_step_def)
next
  case False
  then have "distinct (map fst (g @ [(signal_pair s, [])]))" using assms by auto
  from push_mset [OF this, of "signal_pair s" s] False show ?thesis
    by (simp add: groupSignalsByPair_step_def)
qed

lemma step_distinct:
  "distinct (map fst g) \<Longrightarrow> distinct (map fst (groupSignalsByPair_step s g))"
  by (auto simp: step_keys)

lemma step_pairs:
  assumes "\<And>p ss x. (p, ss) \<in> set g \<Longrightarrow> x \<in> set ss \<Longrightarrow> signal_pair x = p"
    and "(p, ss) \<in> set (groupSignalsByPair_step s g)" and "x \<in> set ss"
  shows "signal_pair x = p"
  using assms by (auto simp: groupSignalsByPair_step_def Let_def split: if_splits)

lemma fold_step:
  assumes "distinct (map fst g)"
    and "\<And>p ss x. (p, ss) \<in> set g \<Longrightarrow> x \<in> set ss \<Longrightarrow> signal_pair x = p"
  shows "distinct (map fst (fold groupSignalsByPair_step xs g))
     \<and> mset (concat (map snd (fold groupSignalsByPair_step xs g))) = mset (concat (map snd g)) + mset xs
     \<and> (\<forall>p ss x. (p, ss) \<in> set (fold groupSignalsByPair_step xs g) \<longrightarrow> x \<in> set ss \<longrightarrow> signal_pair x = p)"
  using assms
proof (induction xs arbitrary: g)
  case Nil
  then show ?case by auto
next
  case (Cons s xs)
  have d: "distinct (map fst (groupSignalsByPair_step s g))"
    using Cons.prems(1) by (rule step_distinct)
  have p: "\<And>p ss x. (p, ss) \<in> set (groupSignalsByPair_step s g) \<Longrightarrow> x \<in> set ss \<Longrightarrow> signal_pair x = p"
    using step_pairs [of g _ _ s] Cons.prems(2) by blast
  from Cons.IH [OF d p] step_mset [OF Cons.prems(1), of s] show ?case
    by (simp add: ac_simps)
qed

lemma groups_facts:
  "distinct (map fst (groupSignalsByPair xs))"
  "mset (concat (map snd (groupSignalsByPair xs))) = mset xs"
  "(p, ss) \<in> set (groupSignalsByPair xs) \<Longrightarrow> x \<in> set ss \<Longrightarrow> signal_pair x = p"
  using fold_step [of "[]" xs] by (auto simp: groupSignalsByPair_def)

lemma groups_member:
  assumes "(p, ss) \<in> set (groupSignalsByPair xs)" and "x \<in> set ss"
  shows "x \<in> set xs"
proof -
  from assms have "x \<in> set (concat (map snd (groupSignalsByPair xs)))" by force
  then have "x \<in># mset (concat (map snd (groupSignalsByPair xs)))" by simp
  then show ?thesis by (simp add: groups_facts(2))
qed

lemma getActiveSignals_open:
  assumes "getActiveSignals env db = Inr act" and "s \<in> set act"
  shows "s \<in> set (signals db) \<and> signal_status s = ''OPEN''"
  using assms by (auto simp: getActiveSignals_def split: if_splits)

lemma fold_groups_cycle:
  assumes d: "distinct (map signal_id (signals db0))"
    and gs: "\<And>p ss s. (p, ss) \<in> set gs \<Longrightarrow> s \<in> set ss
               \<Longrightarrow> s \<in> set (signals db0) \<and> signal_status s = ''OPEN''"
    and inv: "cycle_inv db0 db"
  shows "cycle_inv db0 (fold (\<lambda>(pair, sigs) d. processPairSignals env pair sigs d) gs db)"
  using gs inv
proof (induction gs arbitrary: db)
  case Nil
  then show ?case by simp
next
  case (Cons g gs)
  obtain p ss where g: "g = (p, ss)" by (cases g)
  have "cycle_inv db0 (processPairSignals env p ss db)"
    using Cons.prems(1) [of p ss] g Cons.prems(2)
    by (intro processPairSignals_cycle [OF d]) auto
  moreover have "\<And>p ss s. (p, ss) \<in> set gs \<Longrightarrow> s \<in> set ss
               \<Longrightarrow> s \<in> set (signals db0) \<and> signal_status s = ''OPEN''"
    using Cons.prems(1) by (meson list.set_intros(2))
  ultimately have "cycle_inv db0 (fold (\<lambda>(pair, sigs) d. processPairSignals env pair sigs d)
                     gs (processPairSignals env p ss db))"
    by (rule Cons.IH [rotated])
  with g show ?case by simp
qed

lemma monitorActivePrices_cycle:
  assumes "distinct (map signal_id (signals db))"
  shows "cycle_inv db (monitorActivePrices env db)"
proof (cases "getActiveSignals env db")
  case (Inl e)
  then show ?thesis by (simp add: monitorActivePrices_def cycle_inv_refl)
next
  case (Inr act)
  have "cycle_inv db (fold (\<lambda>(pair, sigs) d. processPairSignals env pair sigs d)
          (groupSignalsByPair act) db)"
    using groups_member [of _ _ act] getActiveSignals_open [OF Inr]
    by (intro fold_groups_cycle [OF assms] cycle_inv_refl) blast
  with Inr show ?thesis by (simp add: monitorActivePrices_def cycle_inv_refl)
qed

lemma filter_unchanged:
  assumes "list_all2 R xs ys"
    and "\<And>x y. R x y \<Longrightarrow> (P y \<longleftrightarrow> P x) \<and> (P x \<longrightarrow> y = x)"
  shows "filter P ys = filter P xs"
  using assms(1)
proof (induction rule: list_all2_induct)
  case Nil
  then show ?case by simp
next
  case (Cons x xs y ys)
  with assms(2) [of x y] show ?case by auto
qed

lemma distinct_filter_single:
  "distinct (map f xs) \<Longrightarrow> r \<in> set xs \<Longrightarrow> filter (\<lambda>x. f x = f r) xs = [r]"
proof (induction xs)
  case Nil
  then show ?case by simp
next
  case (Cons x xs)
  show ?case
  proof (cases "x = r")
    case True
    with Cons.prems have "f r \<notin> f ` set xs" by simp
    then have "filter (\<lambda>x. f x = f r) xs = []"
      unfolding filter_empty_conv by (metis imageI)
    with True show ?thesis by simp
  next
    case False
    with Cons show ?thesis by auto
  qed
qed

lemma cycle_inv_ids:
  "cycle_inv db db' \<Longrightarrow> map signal_id (signals db') = map signal_id (signals db)"
  unfolding cycle_inv_def
  by (auto simp: list_all2_conv_all_nth status_cycle_id intro!: nth_equalityI)

lemma cycle_inv_frozen:
  assumes inv: "cycle_inv db db'" and d: "distinct (map signal_id (signals db))"
    and r: "r \<in> set (signals db)" "signal_status r \<noteq> ''OPEN''"
  shows "filter (\<lambda>s. signal_id s = signal_id r) (signals db') = [r]"
    and "filter (\<lambda>t. target_signal_id t = signal_id r) (signal_targets db')
           = filter (\<lambda>t. target_signal_id t = signal_id r) (signal_targets db)"
proof -
  have inj: "inj_on signal_id (set (signals db))" using d by (simp add: distinct_map)
  have a: "list_all2 (\<lambda>x y. x \<in> set (signals db) \<and> status_cycle x y) (signals db) (signals db')"
    using inv unfolding cycle_inv_def
    by (auto simp: list_all2_conv_all_nth)
  have "filter (\<lambda>s. signal_id s = signal_id r) (signals db')
          = filter (\<lambda>s. signal_id s = signal_id r) (signals db)"
  proof (rule filter_unchanged [OF a])
    fix x y assume xy: "x \<in> set (signals db) \<and> status_cycle x y"
    then have "signal_id y = signal_id x" by (simp add: status_cycle_id)
    moreover have "signal_id x = signal_id r \<longrightarrow> y = x"
    proof
      assume "signal_id x = signal_id r"
      with inj xy r(1) have "x = r" by (auto dest: inj_onD)
      with xy r(2) show "y = x" by (auto simp: status_cycle_def)
    qed
    ultimately show "(signal_id y = signal_id r \<longleftrightarrow> signal_id x = signal_id r)
        \<and> (signal_id x = signal_id r \<longrightarrow> y = x)" by simp
  qed
  with distinct_filter_single [OF d r(1)]
  show "filter (\<lambda>s. signal_id s = signal_id r) (signals db') = [r]" by simp
  have b: "list_all2 (target_cycle (signals db)) (signal_targets db) (signal_targets db')"
    using inv by (simp add: cycle_inv_def)
  show "filter (\<lambda>t. target_signal_id t = signal_id r) (signal_targets db')
           = filter (\<lambda>t. target_signal_id t = signal_id r) (signal_targets db)"
  proof (rule filter_unchanged [OF b])
    fix x y assume xy: "target_cycle (signals db) x y"
    then have "target_signal_id y = target_signal_id x" by (auto simp: target_cycle_def)
    moreover have "target_signal_id x = signal_id r \<longrightarrow> y = x"
    proof
      assume e: "target_signal_id x = signal_id r"
      show "y = x"
      proof (rule ccontr)
        assume "y \<noteq> x"
        with xy obtain s where s: "s \<in> set (signals db)" "signal_id s = target_signal_id x"
            "signal_status s = ''OPEN''"
          by (auto simp: target_cycle_def)
        with e inj r(1) have "s = r" by (auto dest: inj_onD)
        with s(3) r(2) show False by simp
      qed
    qed
    ultimately show "(target_signal_id y = signal_id r \<longleftrightarrow> target_signal_id x = signal_id r)
        \<and> (target_signal_id x = signal_id r \<longrightarrow> y = x)" by simp
  qed
qed

lemma runCycles_frozen:
  assumes "distinct (map signal_id (signals db))"
    and "r \<in> set (signals db)" and "signal_status r \<noteq> ''OPEN''"
  shows "distinct (map signal_id (signals (runCycles envs db)))
     \<and> filter (\<lambda>s. signal_id s = signal_id r) (signals (runCycles envs db)) = [r]
     \<and> filter (\<lambda>t. target_signal_id t = signal_id r) (signal_targets (runCycles envs db))
         = filter (\<lambda>t. target_signal_id t = signal_id r) (signal_targets db)"
  using assms
proof (induction envs arbitrary: db)
  case Nil
  then show ?case by (simp add: runCycles_def distinct_filter_single)
next
  case (Cons env envs)
  let ?db1 = "monitorActivePrices env db"
  have inv: "cycle_inv db ?db1" using Cons.prems(1) by (rule monitorActivePrices_cycle)
  note fr = cycle_inv_frozen [OF inv Cons.prems]
  have d1: "distinct (map signal_id (signals ?db1))"
    using cycle_inv_ids [OF inv] Cons.prems(1) by simp
  have "r \<in> set (filter (\<lambda>s. signal_id s = signal_id r) (signals ?db1))"
    using fr(1) by simp
  then have r1: "r \<in> set (signals ?db1)" by simp
  from Cons.IH [OF d1 r1 Cons.prems(3)] fr(2) show ?case
    by (simp add: runCycles_def)
qed

lemma processPairSignals_evaluations:
  "processPairSignals env pr ss db =
     fold (\<lambda>(s, p) d. processSignalPriceCheck env s p d) (pairEvaluations env pr ss) db"
  by (simp add: processPairSignals_def pairEvaluations_def fold_map comp_def split: option.splits)

lemma fold_groups_evaluations:
  "fold (\<lambda>(pair, sigs) d. processPairSignals env pair sigs d) gs db =
     fold (\<lambda>(s, p) d. processSignalPriceCheck env s p d)
       (concat (map (\<lambda>(pair, sigs). pairEvaluations env pair sigs) gs)) db"
  by (induction gs arbitrary: db) (auto simp: processPairSignals_evaluations)

lemma monitorActivePrices_evaluations:
  "monitorActivePrices env db =
     fold (\<lambda>(s, p) d. processSignalPriceCheck env s p d) (cycleEvaluations env db) db"
  by (auto simp: monitorActivePrices_def cycleEvaluations_def fold_groups_evaluations
        groupSignalsByPair_def split: sum.splits)

lemma evaluations_of_groups:
  assumes "\<And>p ss x. (p, ss) \<in> set gs \<Longrightarrow> x \<in> set ss \<Longrightarrow> signal_pair x = p"
  shows "concat (map (\<lambda>(pair, sigs). pairEvaluations env pair sigs) gs)
       = map (\<lambda>s. (s, the (getCurrentPrice env (signal_pair s))))
           (filter (\<lambda>s. getCurrentPrice env (signal_pair s) \<noteq> None) (concat (map snd gs)))"
  using assms
proof (induction gs)
  case Nil
  then show ?case by simp
next
  case (Cons g gs)
  obtain p ss where g: "g = (p, ss)" by (cases g)
  have ps: "\<And>x. x \<in> set ss \<Longrightarrow> signal_pair x = p"
    using Cons.prems [of p ss] g by simp
  have "pairEvaluations env p ss
       = map (\<lambda>s. (s, the (getCurrentPrice env (signal_pair s))))
           (filter (\<lambda>s. getCurrentPrice env (signal_pair s) \<noteq> None) ss)"
  proof (cases "getCurrentPrice env p")
    case None
    with ps have "filter (\<lambda>s. getCurrentPrice env (signal_pair s) \<noteq> None) ss = []"
      by (simp add: filter_empty_conv)
    with None show ?thesis by (simp add: pairEvaluations_def)
  next
    case (Some c)
    with ps have "filter (\<lambda>s. getCurrentPrice env (signal_pair s) \<noteq> None) ss = ss"
      by (simp add: filter_id_conv)
    with Some ps show ?thesis by (simp add: pairEvaluations_def)
  qed
  moreover have "concat (map (\<lambda>(pair, sigs). pairEvaluations env pair sigs) gs)
       = map (\<lambda>s. (s, the (getCurrentPrice env (signal_pair s))))
           (filter (\<lambda>s. getCurrentPrice env (signal_pair s) \<noteq> None) (concat (map snd gs)))"
    using Cons.prems by (intro Cons.IH) (meson list.set_intros(2))
  ultimately show ?case using g by simp
qed

lemma count_list_map_inj:
  "inj f \<Longrightarrow> count_list (map f xs) (f x) = count_list xs x"
  by (induction xs) (auto dest: injD)

lemma cycleEvaluations_count:
  assumes "\<not> d1_fails env SelectActiveSignals" and "signal_status s = ''OPEN''"
    and "getCurrentPrice env (signal_pair s) = Some p"
  shows "count_list (cycleEvaluations env db) (s, p) = count_list (signals db) s"
proof -
  define act where "act = sort_key (\<lambda>s. - created_at s)
                      (filter (\<lambda>s. signal_status s = ''OPEN'') (signals db))"
  define Q where "Q = (\<lambda>s::signal_row. getCurrentPrice env (signal_pair s) \<noteq> None)"
  define f where "f = (\<lambda>s::signal_row. (s, the (getCurrentPrice env (signal_pair s))))"
  have inj: "inj f" by (auto simp: f_def inj_on_def)
  have ga: "getActiveSignals env db = Inr act"
    using assms(1) by (simp add: getActiveSignals_def act_def)
  have ev: "cycleEvaluations env db = map f (filter Q (concat (map snd (groupSignalsByPair act))))"
    using evaluations_of_groups [of "groupSignalsByPair act" env] groups_facts(3) [of _ _ act] ga
    by (simp add: cycleEvaluations_def f_def Q_def)
  have fs: "f s = (s, p)" using assms(3) by (simp add: f_def)
  have "count_list (cycleEvaluations env db) (s, p)
          = count_list (filter Q (concat (map snd (groupSignalsByPair act)))) s"
    using inj by (simp add: ev fs [symmetric] count_list_map_inj)
  also have "\<dots> = count (filter_mset Q (mset (concat (map snd (groupSignalsByPair act))))) s"
    by (simp add: count_mset [symmetric])
  also have "\<dots> = count (filter_mset Q (mset act)) s"
    by (simp add: groups_facts(2))
  also have "\<dots> = count (mset act) s"
    using assms(3) by (simp add: Q_def)
  also have "\<dots> = count (filter_mset (\<lambda>s. signal_status s = ''OPEN'') (mset (signals db))) s"
    by (simp add: act_def)
  also have "\<dots> = count_list (signals db) s"
    using assms(2) by (simp add: count_mset)
  finally show ?thesis .
qed


lemma flag_step_trans:
  assumes "list_all2 flag_step xs ys" and "list_all2 flag_step ys zs"
  shows "list_all2 flag_step xs zs"
  by (rule list_all2_trans [OF _ assms]) (auto simp: flag_step_def)

lemma flag_step_fold:
  assumes "\<And>x d. list_all2 flag_step (signal_targets d) (signal_targets (f x d))"
  shows "list_all2 flag_step (signal_targets db) (signal_targets (fold f xs db))"
proof (induction xs arbitrary: db)
  case Nil
  then show ?case by (simp add: list_all2_refl flag_step_def)
next
  case (Cons x xs)
  show ?case
    using assms [of db x] Cons.IH [of "f x db"]
    by (auto intro: flag_step_trans)
qed

lemma processSignalPriceCheck_flags:
  "list_all2 flag_step (signal_targets d) (signal_targets (processSignalPriceCheck env s p d))"
  using processSignalPriceCheck_step(2) [of s d env p]
  by (rule list_all2_mono) (auto simp: target_step_def flag_step_def)

lemma monitorActivePrices_flags:
  "list_all2 flag_step (signal_targets db) (signal_targets (monitorActivePrices env db))"
  unfolding monitorActivePrices_evaluations
  by (rule flag_step_fold) (auto simp: processSignalPriceCheck_flags)

lemma runCycles_flags:
  "list_all2 flag_step (signal_targets db) (signal_targets (runCycles envs db))"
  unfolding runCycles_def
  by (rule flag_step_fold) (rule monitorActivePrices_flags)

lemma checkTakeProfitHits_ascending:
  "sorted_wrt (<) (checkTakeProfitHits env sid p tps ty db)"
  "i \<in> set (checkTakeProfitHits env sid p tps ty db) \<Longrightarrow> i < length tps"
  "i \<in> set (checkTakeProfitHits env sid p tps ''LONG'' db) \<Longrightarrow> p \<ge> tps ! i"
  by (auto simp: checkTakeProfitHits_def Let_def sorted_wrt_filter split: if_splits)

lemma find_SomeD: "find P xs = Some x \<Longrightarrow> P x \<and> x \<in> set xs"
  by (induction xs) (auto split: if_splits)

lemma fold_upd_find:
  assumes "distinct (map k xs)"
  shows "fold (\<lambda>row m. m(k row \<mapsto> v row)) xs m i
     = (case find (\<lambda>r. k r = i) xs of Some r \<Rightarrow> Some (v r) | None \<Rightarrow> m i)"
proof -
  define F where "F = (\<lambda>row m. m(k row \<mapsto> v row))"
  have F: "\<And>row m j. F row m j = (if j = k row then Some (v row) else m j)"
    by (simp add: F_def)
  have "fold F xs m i = (case find (\<lambda>r. k r = i) xs of Some r \<Rightarrow> Some (v r) | None \<Rightarrow> m i)"
    using assms
  proof (induction xs arbitrary: m)
    case Nil
    then show ?case by simp
  next
    case (Cons x xs)
    from Cons.prems have d: "distinct (map k xs)" and n: "\<forall>r \<in> set xs. k r \<noteq> k x"
      by (auto simp: image_iff)
    have s: "fold F (x # xs) m i = fold F xs (F x m) i"
      by simp
    show ?case
    proof (cases "k x = i")
      case True
      with n have "find (\<lambda>r. k r = i) xs = None" by (simp add: find_None_iff)
      with True show ?thesis unfolding s Cons.IH [OF d] by (simp add: F)
    next
      case False
      then show ?thesis unfolding s Cons.IH [OF d] by (simp add: F split: option.splits)
    qed
  qed
  then show ?thesis by (simp only: F_def)
qed

lemma distinct_index_of_key:
  "distinct (map (\<lambda>t. (a t, b t)) xs) \<Longrightarrow> distinct (map b (filter (\<lambda>t. a t = s) xs))"
  by (induction xs) (auto simp: image_iff)

lemma find_unique:
  assumes "distinct (map k xs)"
  shows "(case find (\<lambda>r. k r = i) xs of Some r \<Rightarrow> v r | None \<Rightarrow> False)
           \<longleftrightarrow> (\<exists>t \<in> set xs. k t = i \<and> v t)"
proof (cases "find (\<lambda>r. k r = i) xs")
  case None
  then have "\<forall>t \<in> set xs. k t \<noteq> i" by (simp add: find_None_iff)
  then show ?thesis unfolding None by auto
next
  case (Some r)
  from find_SomeD [OF Some] have r: "r \<in> set xs" "k r = i" by simp_all
  from assms have inj: "inj_on k (set xs)" by (simp add: distinct_map)
  have u: "t = r" if "t \<in> set xs" "k t = i" for t
    using inj that r by (metis inj_onD)
  have "(\<exists>t \<in> set xs. k t = i \<and> v t) \<longleftrightarrow> v r"
    using r u by blast
  then show ?thesis unfolding Some by simp
qed

lemma checkTakeProfitHits_rule:
  assumes ok: "\<not> d1_fails env (SelectTargets sid)"
    and key: "distinct (map (\<lambda>t. (target_signal_id t, target_index t)) (signal_targets db))"
  shows "i \<in> set (checkTakeProfitHits env sid price tps ty db) \<longleftrightarrow>
           i < length tps
           \<and> \<not> (\<exists>t \<in> set (signal_targets db).
                    target_signal_id t = sid \<and> target_index t = i \<and> is_hit t)
           \<and> (if ty = ''LONG'' then price \<ge> tps ! i else price \<le> tps ! i)"
proof -
  define rows where "rows = sort_key target_index
                         (filter (\<lambda>t. target_signal_id t = sid) (signal_targets db))"
  have "distinct (map target_index rows)
          = distinct (map target_index
                        (filter (\<lambda>t. target_signal_id t = sid) (signal_targets db)))"
    by (rule mset_eq_imp_distinct_iff) (simp add: rows_def)
  then have d: "distinct (map target_index rows)"
    using distinct_index_of_key [OF key, of sid] by simp
  have s: "set rows = {t \<in> set (signal_targets db). target_signal_id t = sid}"
    by (auto simp: rows_def)
  have h: "(case fold (\<lambda>row m. m(target_index row \<mapsto> is_hit row)) rows Map.empty i of
              Some b \<Rightarrow> b | None \<Rightarrow> False)
           \<longleftrightarrow> (\<exists>t \<in> set (signal_targets db).
                    target_signal_id t = sid \<and> target_index t = i \<and> is_hit t)"
  proof -
    have "(case fold (\<lambda>row m. m(target_index row \<mapsto> is_hit row)) rows Map.empty i of
              Some b \<Rightarrow> b | None \<Rightarrow> False)
          = (case find (\<lambda>r. target_index r = i) rows of Some r \<Rightarrow> is_hit r | None \<Rightarrow> False)"
      by (simp add: fold_upd_find [OF d] split: option.splits)
    also have "\<dots> \<longleftrightarrow> (\<exists>t \<in> set rows. target_index t = i \<and> is_hit t)"
      by (rule find_unique [OF d])
    also have "\<dots> \<longleftrightarrow> (\<exists>t \<in> set (signal_targets db).
                    target_signal_id t = sid \<and> target_index t = i \<and> is_hit t)"
      unfolding s by blast
    finally show ?thesis .
  qed
  have "i \<in> set (checkTakeProfitHits env sid price tps ty db) \<longleftrightarrow>
          i < length tps
          \<and> \<not> (case fold (\<lambda>row m. m(target_index row \<mapsto> is_hit row)) rows Map.empty i of
                  Some b \<Rightarrow> b | None \<Rightarrow> False)
          \<and> (if ty = ''LONG'' then price \<ge> tps ! i else price \<le> tps ! i)"
    using ok unfolding checkTakeProfitHits_def Let_def rows_def by simp
  then show ?thesis unfolding h .
qed

lemma cycleEvaluations_open_only:
  assumes "(s, p) \<in> set (cycleEvaluations env db)"
  shows "s \<in> set (signals db) \<and> signal_status s = ''OPEN''"
proof (cases "getActiveSignals env db")
  case (Inl e)
  with assms show ?thesis by (simp add: cycleEvaluations_def)
next
  case (Inr act)
  with assms obtain pr ss where g: "(pr, ss) \<in> set (groupSignalsByPair act)"
      and m: "(s, p) \<in> set (pairEvaluations env pr ss)"
    by (auto simp: cycleEvaluations_def)
  from m have "s \<in> set ss"
    by (auto simp: pairEvaluations_def split: option.splits)
  with g have "s \<in> set act" by (rule groups_member)
  with Inr show ?thesis by (rule getActiveSignals_open)
qed

lemma partial_tp_never_evaluated:
  "signal_status s = ''PARTIAL_TP'' \<Longrightarrow> (s, p) \<notin> set (cycleEvaluations env db)"
  using cycleEvaluations_open_only [of s p env db] by auto


lemma runCycles_ids:
  assumes "distinct (map signal_id (signals db))"
  shows "map signal_id (signals (runCycles envs db)) = map signal_id (signals db)"
  using assms
proof (induction envs arbitrary: db)
  case Nil
  then show ?case by (simp add: runCycles_def)
next
  case (Cons env envs)
  have i: "map signal_id (signals (monitorActivePrices env db)) = map signal_id (signals db)"
    using monitorActivePrices_cycle [OF Cons.prems] by (rule cycle_inv_ids)
  with Cons.prems Cons.IH [of "monitorActivePrices env db"] show ?case
    by (simp add: runCycles_def)
qed

lemma runCycles_append: "runCycles (envs1 @ envs2) db = runCycles envs2 (runCycles envs1 db)"
  by (simp add: runCycles_def)

lemma status_of_single:
  assumes "status_of db sid = [st]"
  shows "\<exists>r \<in> set (signals db). signal_id r = sid \<and> signal_status r = st"
proof -
  from assms obtain r where f: "filter (\<lambda>s. signal_id s = sid) (signals db) = [r]"
      and st: "signal_status r = st"
    by (auto simp: status_of_def map_eq_Cons_conv)
  have "r \<in> set (filter (\<lambda>s. signal_id s = sid) (signals db))"
    unfolding f by simp
  then have "r \<in> set (signals db) \<and> signal_id r = sid"
    by simp
  with st show ?thesis by blast
qed

lemma runCycles_closed_status:
  assumes "distinct (map signal_id (signals db))"
    and "r \<in> set (signals db)" and "signal_status r \<noteq> ''OPEN''"
  shows "status_of (runCycles envs db) (signal_id r) = [signal_status r]"
    and "hit_flags (runCycles envs db) (signal_id r) = hit_flags db (signal_id r)"
  using runCycles_frozen [OF assms, of envs] by (simp_all add: status_of_def hit_flags_def)

lemma handleStopLossHit_eq:
  "handleStopLossHit env sid db =
     (if d1_fails env (UpdateStatus sid ''SL_HIT'') then db
      else db\<lparr>signals := map (\<lambda>r. if signal_id r = sid then r\<lparr>signal_status := ''SL_HIT''\<rparr> else r)
                            (signals db)\<rparr>)"
  by (simp add: handleStopLossHit_def updateSignalStatus_def)

lemma processSignalPriceCheck_stop:
  assumes "targets_json s = Some tg"
    and "isStopLossHit p (fst (calculatePriceLevels (entry_price s) (stop_loss s) tg
           (signal_type s))) (signal_type s)"
  shows "processSignalPriceCheck env s p db = handleStopLossHit env (signal_id s) db"
  using assms
  by (cases "calculatePriceLevels (entry_price s) (stop_loss s) tg (signal_type s)")
     (simp add: processSignalPriceCheck_def)

lemma stop_sets_status:
  assumes d: "distinct (map signal_id (signals db))" and s: "s \<in> set (signals db)"
    and ok: "\<not> d1_fails env (UpdateStatus (signal_id s) ''SL_HIT'')"
  shows "status_of (handleStopLossHit env (signal_id s) db) (signal_id s) = [''SL_HIT'']"
proof -
  let ?f = "\<lambda>r. if signal_id r = signal_id s then r\<lparr>signal_status := ''SL_HIT''\<rparr> else r"
  have c: "(\<lambda>x. signal_id x = signal_id s) \<circ> ?f = (\<lambda>x. signal_id x = signal_id s)"
    by (auto simp: fun_eq_iff)
  have "filter (\<lambda>x. signal_id x = signal_id s) (map ?f (signals db))
          = map ?f (filter (\<lambda>x. signal_id x = signal_id s) (signals db))"
    by (simp add: filter_map c)
  also have "\<dots> = [s\<lparr>signal_status := ''SL_HIT''\<rparr>]"
    by (simp add: distinct_filter_single [OF d s])
  finally show ?thesis
    using ok by (simp add: handleStopLossHit_eq status_of_def)
qed

lemmas monitor_defs =
  monitorActivePrices_def getActiveSignals_def groupSignalsByPair_def groupSignalsByPair_step_def
  processPairSignals_def getCurrentPrice_def processSignalPriceCheck_def calculatePriceLevels_def
  isStopLossHit_def handleStopLossHit_def updateSignalStatus_def checkTakeProfitHits_def
  handleTakeProfitHits_def checkAllTargetsHit_def updateSignalTarget_def Let_def
  cycle_at_def long_database_def ladder_database_def long_signal_def

lemma stop_loss_cycle:
  "monitorActivePrices (cycle_at 2388.00) (long_database 2450.50)
     = ladder_database 2450.50 ''SL_HIT'' False False False"
  by (simp add: monitor_defs)

lemma no_stop_loss_cycle:
  "monitorActivePrices (cycle_at 2400.00) (long_database 2450.50) = long_database 2450.50"
  by (simp add: monitor_defs)

text \<open>
  The ladder of the LONG signal at reference 100.00, cycle by cycle. The last lemma is the
  transition function itself at the price 106 on the state the cycle at 103 leaves: it
  would mark rungs 1 and 2 and set TP_HIT, but \<open>cycle_106_skips_partial\<close> shows that the
  cycle never calls it for this signal.
\<close>

lemma cycle_101:
  "monitorActivePrices (cycle_at 101) (long_database 100.00) = long_database 100.00"
  by (simp add: monitor_defs)

lemma cycle_103:
  "monitorActivePrices (cycle_at 103) (long_database 100.00)
     = ladder_database 100.00 ''PARTIAL_TP'' True False False"
  by (simp add: monitor_defs)

lemma cycle_106_skips_partial:
  "monitorActivePrices (cycle_at 106) (ladder_database 100.00 ''PARTIAL_TP'' True False False)
     = ladder_database 100.00 ''PARTIAL_TP'' True False False"
  by (simp add: monitor_defs)

lemma transition_106:
  "processSignalPriceCheck (cycle_at 106) (long_signal 100.00) 106
     (ladder_database 100.00 ''PARTIAL_TP'' True False False)
     = ladder_database 100.00 ''TP_HIT'' True True True"
  by (simp add: monitor_defs)

text \<open>
  Claim C1. The stop price is \<open>reference \<times> (1 + stopLossPercent / 100)\<close> for a LONG signal
  and \<open>reference \<times> (1 - |stopLossPercent| / 100)\<close> for a SHORT one; the stop-loss is judged
  hit exactly when the current price is at most the stop price (LONG) or at least the stop
  price (SHORT); a signal whose stop-loss is judged hit gets the status SL_HIT, provided the
  status update itself does not fail. For the LONG signal with reference 2450.50 and
  stop-loss -2.5 the stop price is \<open>2450.50 \<times> 0.975\<close>; a cycle at price 2388.00 sets SL_HIT
  and a cycle at price 2400.00 changes nothing.
\<close>

theorem stop_loss_direction:
  "fst (calculatePriceLevels e sl tg ''LONG'') = e * (1 + sl / 100)
   \<and> fst (calculatePriceLevels e sl tg ''SHORT'') = e * (1 - \<bar>sl\<bar> / 100)
   \<and> (isStopLossHit c sp ''LONG'' \<longleftrightarrow> c \<le> sp)
   \<and> (isStopLossHit c sp ''SHORT'' \<longleftrightarrow> c \<ge> sp)
   \<and> (targets_json s = Some tgs
        \<and> isStopLossHit p (fst (calculatePriceLevels (entry_price s) (stop_loss s) tgs
             (signal_type s))) (signal_type s)
      \<longrightarrow> processSignalPriceCheck env s p db =
            (if d1_fails env (UpdateStatus (signal_id s) ''SL_HIT'') then db
             else db\<lparr>signals :=
                    map (\<lambda>r. if signal_id r = signal_id s then r\<lparr>signal_status := ''SL_HIT''\<rparr>
                             else r) (signals db)\<rparr>))
   \<and> fst (calculatePriceLevels 2450.50 (- 2.5) [2.0, 3.5, 5.0] ''LONG'') = 2450.50 * 0.975
   \<and> isStopLossHit 2388.00 (2450.50 * 0.975) ''LONG''
   \<and> \<not> isStopLossHit 2400.00 (2450.50 * 0.975) ''LONG''
   \<and> monitorActivePrices (cycle_at 2388.00) (long_database 2450.50)
       = ladder_database 2450.50 ''SL_HIT'' False False False
   \<and> monitorActivePrices (cycle_at 2400.00) (long_database 2450.50) = long_database 2450.50"
proof -
  have a: "fst (calculatePriceLevels e sl tg ''LONG'') = e * (1 + sl / 100)"
    "fst (calculatePriceLevels e sl tg ''SHORT'') = e * (1 - \<bar>sl\<bar> / 100)"
    by (simp_all add: calculatePriceLevels_def)
  have b: "isStopLossHit c sp ''LONG'' \<longleftrightarrow> c \<le> sp" "isStopLossHit c sp ''SHORT'' \<longleftrightarrow> c \<ge> sp"
    by (simp_all add: isStopLossHit_def)
  have c: "targets_json s = Some tgs
        \<and> isStopLossHit p (fst (calculatePriceLevels (entry_price s) (stop_loss s) tgs
             (signal_type s))) (signal_type s)
      \<longrightarrow> processSignalPriceCheck env s p db =
            (if d1_fails env (UpdateStatus (signal_id s) ''SL_HIT'') then db
             else db\<lparr>signals :=
                    map (\<lambda>r. if signal_id r = signal_id s then r\<lparr>signal_status := ''SL_HIT''\<rparr>
                             else r) (signals db)\<rparr>)"
    using processSignalPriceCheck_stop [of s tgs p env db]
    by (simp add: handleStopLossHit_eq)
  have d: "fst (calculatePriceLevels 2450.50 (- 2.5) [2.0, 3.5, 5.0] ''LONG'') = 2450.50 * 0.975"
    "isStopLossHit 2388.00 (2450.50 * 0.975) ''LONG''"
    "\<not> isStopLossHit 2400.00 (2450.50 * 0.975) ''LONG''"
    by (simp_all add: calculatePriceLevels_def isStopLossHit_def)
  from a b c d stop_loss_cycle no_stop_loss_cycle show ?thesis
    by blast
qed

theorem stop_loss_direction_witness:
  "processSignalPriceCheck (cycle_at 2388.00) (long_signal 2450.50) 2388.00
     (long_database 2450.50) = ladder_database 2450.50 ''SL_HIT'' False False False"
proof -
  have t: "targets_json (long_signal 2450.50) = Some [2.0, 3.5, 5.0]"
    by (simp add: long_signal_def)
  have h: "isStopLossHit 2388.00
             (fst (calculatePriceLevels (entry_price (long_signal 2450.50))
                (stop_loss (long_signal 2450.50)) [2.0, 3.5, 5.0]
                (signal_type (long_signal 2450.50)))) (signal_type (long_signal 2450.50))"
    by (simp add: long_signal_def calculatePriceLevels_def isStopLossHit_def)
  show ?thesis
    using stop_loss_direction
            [where s = "long_signal 2450.50" and tgs = "[2.0, 3.5, 5.0]" and p = "2388.00"
               and env = "cycle_at 2388.00" and db = "long_database 2450.50"] t h
    by (simp add: cycle_at_def long_database_def ladder_database_def long_signal_def)
qed

text \<open>
  Claim C2. The claim has the transition function evaluated in every scheduled cycle for
  every signal whose status is OPEN or PARTIAL_TP, so that the sweep of cycle prices 101,
  103 and 106 over the LONG signal at reference 100.00 with the rungs 2.0, 3.5 and 5.0
  ends in TP_HIT with all three rungs hit. The code does otherwise. The cycle at 101
  reaches no rung and changes nothing; the cycle at 103 marks rung 0 and sets PARTIAL_TP;
  the cycle at 106 then makes no evaluation at all, because \<^verbatim>\<open>getActiveSignals\<close>
  reads the rows with status OPEN only: the sweep ends in PARTIAL_TP with rungs 1 and 2
  unmarked, and no later cycle can change that.
\<close>

theorem ladder_stalls_at_partial_tp:
  "runCycles [cycle_at 101] (long_database 100.00) = long_database 100.00
   \<and> runCycles [cycle_at 101, cycle_at 103] (long_database 100.00)
       = ladder_database 100.00 ''PARTIAL_TP'' True False False
   \<and> cycleEvaluations (cycle_at 106) (ladder_database 100.00 ''PARTIAL_TP'' True False False)
       = []
   \<and> monitorActivePrices (cycle_at 106) (ladder_database 100.00 ''PARTIAL_TP'' True False False)
       = ladder_database 100.00 ''PARTIAL_TP'' True False False
   \<and> runCycles [cycle_at 101, cycle_at 103, cycle_at 106] (long_database 100.00)
       = ladder_database 100.00 ''PARTIAL_TP'' True False False
   \<and> status_of (runCycles [cycle_at 101, cycle_at 103, cycle_at 106] (long_database 100.00))
        ''sig-eth-long'' = [''PARTIAL_TP'']
   \<and> hit_flags (runCycles [cycle_at 101, cycle_at 103, cycle_at 106] (long_database 100.00))
        ''sig-eth-long'' = [True, False, False]"
proof -
  have e: "cycleEvaluations (cycle_at 106)
             (ladder_database 100.00 ''PARTIAL_TP'' True False False) = []"
    by (simp add: cycleEvaluations_def getActiveSignals_def groupSignalsByPair_def
          cycle_at_def ladder_database_def long_signal_def)
  have r1: "runCycles [cycle_at 101] (long_database 100.00) = long_database 100.00"
    using cycle_101 by (simp add: runCycles_def)
  have r2: "runCycles [cycle_at 101, cycle_at 103] (long_database 100.00)
              = ladder_database 100.00 ''PARTIAL_TP'' True False False"
    using cycle_101 cycle_103 by (simp add: runCycles_def)
  have r3: "runCycles [cycle_at 101, cycle_at 103, cycle_at 106] (long_database 100.00)
              = ladder_database 100.00 ''PARTIAL_TP'' True False False"
    using cycle_101 cycle_103 cycle_106_skips_partial by (simp add: runCycles_def)
  have s: "status_of (ladder_database 100.00 ''PARTIAL_TP'' True False False) ''sig-eth-long''
             = [''PARTIAL_TP'']"
    "hit_flags (ladder_database 100.00 ''PARTIAL_TP'' True False False) ''sig-eth-long''
             = [True, False, False]"
    by (simp_all add: status_of_def hit_flags_def ladder_database_def long_signal_def)
  from e r1 r2 r3 s cycle_106_skips_partial show ?thesis
    by simp
qed

text \<open>
  Claim C3. With signal_id the primary key of signals: a signal whose status is SL_HIT
  keeps that status and the hit flags of all its targets through every later run of
  monitoring cycles; the evaluation that judges the stop-loss hit touches no target row
  and, when its status update succeeds, leaves the signal in SL_HIT; a signal that has
  left OPEN is never OPEN again; and no signal is SL_HIT at one time and TP_HIT at a later
  time, or the other way round.
\<close>

theorem stop_loss_is_final:
  assumes "distinct (map signal_id (signals db))"
  shows "(r \<in> set (signals db) \<and> signal_status r = ''SL_HIT'' \<longrightarrow>
            status_of (runCycles envs db) (signal_id r) = [''SL_HIT'']
            \<and> hit_flags (runCycles envs db) (signal_id r) = hit_flags db (signal_id r))
       \<and> (targets_json s = Some tg
            \<and> isStopLossHit p (fst (calculatePriceLevels (entry_price s) (stop_loss s) tg
                 (signal_type s))) (signal_type s) \<longrightarrow>
            signal_targets (processSignalPriceCheck env s p db) = signal_targets db
            \<and> (s \<in> set (signals db) \<and> \<not> d1_fails env (UpdateStatus (signal_id s) ''SL_HIT'')
                 \<longrightarrow> status_of (processSignalPriceCheck env s p db) (signal_id s)
                       = [''SL_HIT'']))
       \<and> (r \<in> set (signals db) \<and> signal_status r \<noteq> ''OPEN'' \<longrightarrow>
            ''OPEN'' \<notin> set (status_of (runCycles envs db) (signal_id r)))
       \<and> \<not> (status_of (runCycles envs1 db) sid = [''SL_HIT'']
              \<and> status_of (runCycles (envs1 @ envs2) db) sid = [''TP_HIT''])
       \<and> \<not> (status_of (runCycles envs1 db) sid = [''TP_HIT'']
              \<and> status_of (runCycles (envs1 @ envs2) db) sid = [''SL_HIT''])"
proof -
  have a: "r \<in> set (signals db) \<and> signal_status r = ''SL_HIT'' \<longrightarrow>
            status_of (runCycles envs db) (signal_id r) = [''SL_HIT'']
            \<and> hit_flags (runCycles envs db) (signal_id r) = hit_flags db (signal_id r)"
    using runCycles_closed_status [OF assms, of r envs] by auto
  have b: "targets_json s = Some tg
            \<and> isStopLossHit p (fst (calculatePriceLevels (entry_price s) (stop_loss s) tg
                 (signal_type s))) (signal_type s) \<longrightarrow>
            signal_targets (processSignalPriceCheck env s p db) = signal_targets db
            \<and> (s \<in> set (signals db) \<and> \<not> d1_fails env (UpdateStatus (signal_id s) ''SL_HIT'')
                 \<longrightarrow> status_of (processSignalPriceCheck env s p db) (signal_id s)
                       = [''SL_HIT''])"
    using processSignalPriceCheck_stop [of s tg p env db]
      handleStopLossHit_step(2) [of env "signal_id s" db] stop_sets_status [OF assms, of s env]
    by auto
  have c: "r \<in> set (signals db) \<and> signal_status r \<noteq> ''OPEN'' \<longrightarrow>
            ''OPEN'' \<notin> set (status_of (runCycles envs db) (signal_id r))"
    using runCycles_closed_status(1) [OF assms, of r envs] by auto
  have d1: "distinct (map signal_id (signals (runCycles envs1 db)))"
    using runCycles_ids [OF assms, of envs1] assms by simp
  have e: "status_of (runCycles (envs1 @ envs2) db) sid = [st]"
    if "status_of (runCycles envs1 db) sid = [st]" and "st \<noteq> ''OPEN''" for st
  proof -
    from status_of_single [OF that(1)] obtain r1 where
      r1: "r1 \<in> set (signals (runCycles envs1 db))" "signal_id r1 = sid" "signal_status r1 = st"
      by auto
    with that(2) runCycles_closed_status(1) [OF d1 r1(1), of envs2] show ?thesis
      by (simp add: runCycles_append)
  qed
  have f: "\<not> (status_of (runCycles envs1 db) sid = [''SL_HIT'']
              \<and> status_of (runCycles (envs1 @ envs2) db) sid = [''TP_HIT''])"
    using e [of "''SL_HIT''"] by auto
  have g: "\<not> (status_of (runCycles envs1 db) sid = [''TP_HIT'']
              \<and> status_of (runCycles (envs1 @ envs2) db) sid = [''SL_HIT''])"
    using e [of "''TP_HIT''"] by auto
  from a b c f g show ?thesis by blast
qed

theorem stop_loss_is_final_witness:
  "monitorActivePrices (cycle_at 2388.00) (long_database 2450.50)
     = ladder_database 2450.50 ''SL_HIT'' False False False
   \<and> status_of (runCycles [cycle_at 2600, cycle_at 2380]
                  (ladder_database 2450.50 ''SL_HIT'' False False False)) ''sig-eth-long''
       = [''SL_HIT'']
   \<and> hit_flags (runCycles [cycle_at 2600, cycle_at 2380]
                  (ladder_database 2450.50 ''SL_HIT'' False False False)) ''sig-eth-long''
       = [False, False, False]"
proof -
  let ?db = "ladder_database 2450.50 ''SL_HIT'' False False False"
  let ?r = "(long_signal 2450.50)\<lparr>signal_status := ''SL_HIT''\<rparr>"
  have d: "distinct (map signal_id (signals ?db))"
    by (simp add: ladder_database_def)
  have r: "?r \<in> set (signals ?db)" "signal_status ?r = ''SL_HIT''"
    "signal_id ?r = ''sig-eth-long''"
    by (simp_all add: ladder_database_def long_signal_def)
  have h: "hit_flags ?db ''sig-eth-long'' = [False, False, False]"
    by (simp add: hit_flags_def ladder_database_def)
  show ?thesis
    using stop_loss_is_final [OF d, where r = ?r and envs = "[cycle_at 2600, cycle_at 2380]"]
      r h stop_loss_cycle
    by simp
qed

end
